theory Spec2Isabelle
  imports Main "HOL-Library.Sublist" "HOL-Library.Multiset" "HOL-Library.List_Lexorder"
begin

section \<open>Python strings and the string operations the program uses\<close>

text \<open>
  A Python \<open>str\<close> is a sequence of Unicode code points, so a string is a list of natural
  numbers here. \<open>asc\<close> embeds an ASCII literal; the CJK parts of the labels are written as
  their code points.
\<close>

type_synonym pstr = "nat list"

definition asc :: "string \<Rightarrow> pstr" where
  "asc s = map of_char s"

text \<open>
  The exceptions the program can meet. A \<open>ValueError\<close> carries its message; the messages
  of the three \<open>raise\<close> statements of \<open>process_csv\<close> are the source's own.
\<close>

datatype error = IndexError | ValueError string | AttributeError | TypeError

definition bindE :: "error + 'a \<Rightarrow> ('a \<Rightarrow> error + 'b) \<Rightarrow> error + 'b" where
  "bindE m f = (case m of Inl e \<Rightarrow> Inl e | Inr x \<Rightarrow> f x)"

text \<open>\<open>sub in s\<close> on strings: \<open>sub\<close> occurs in \<open>s\<close> as a contiguous run.\<close>

fun py_in :: "'a list \<Rightarrow> 'a list \<Rightarrow> bool" where
  "py_in sub [] = (sub = [])"
| "py_in sub (c # cs) = (prefix sub (c # cs) \<or> py_in sub cs)"

text \<open>\<open>s.startswith(p)\<close>.\<close>

definition startswith :: "'a list \<Rightarrow> 'a list \<Rightarrow> bool" where
  "startswith s p = prefix p s"

text \<open>
  \<open>s.split(sep)\<close> cuts \<open>s\<close> at the occurrences of \<open>sep\<close>, found from left to right
  without overlap. \<open>partition_first\<close> finds the first occurrence and returns the text before
  and after it. Python raises \<open>ValueError\<close> for an empty separator; every separator of the
  program is a non-empty literal, and \<open>py_split\<close> returns the string uncut there.
\<close>

fun partition_first :: "'a list \<Rightarrow> 'a list \<Rightarrow> ('a list \<times> 'a list) option" where
  "partition_first sep [] = None"
| "partition_first sep (c # cs) =
     (if prefix sep (c # cs) then Some ([], drop (length sep) (c # cs))
      else map_option (\<lambda>(a, b). (c # a, b)) (partition_first sep cs))"

function py_split :: "'a list \<Rightarrow> 'a list \<Rightarrow> 'a list list" where
  "py_split s sep =
     (if sep = [] then [s]
      else case partition_first sep s of
             None \<Rightarrow> [s]
           | Some (a, b) \<Rightarrow> a # py_split b sep)"
  by pat_completeness auto
termination
proof (relation "measure (\<lambda>(s, sep). length s)")
  show "wf (measure (\<lambda>(s :: 'a list, sep :: 'a list). length s))"
    by simp
next
  fix s sep :: "'a list" and x2 a b
  assume sep: "sep \<noteq> []" and found: "partition_first sep s = Some x2" and x2: "(a, b) = x2"
  have shorter: "partition_first sep t = Some (u, v) \<Longrightarrow> length v < length t" for t u v
  proof (induction t arbitrary: u)
    case Nil
    then show ?case by simp
  next
    case (Cons c cs)
    show ?case
    proof (cases "prefix sep (c # cs)")
      case True
      with Cons.prems sep show ?thesis by (cases sep) auto
    next
      case False
      with Cons.prems obtain u' where "partition_first sep cs = Some (u', v)"
        by (auto split: prod.splits)
      with Cons.IH show ?thesis by fastforce
    qed
  qed
  from found x2 have "length b < length s"
    by (auto dest: shorter)
  then show "((b, sep), (s, sep)) \<in> measure (\<lambda>(s, sep). length s)"
    by simp
qed

declare py_split.simps [simp del]

text \<open>Subscripts \<open>xs[0]\<close> and \<open>xs[1]\<close>: out of range raises \<open>IndexError\<close>.\<close>

definition index0 :: "'a list \<Rightarrow> error + 'a" where
  "index0 xs = (case xs of x # _ \<Rightarrow> Inr x | _ \<Rightarrow> Inl IndexError)"

definition index1 :: "'a list \<Rightarrow> error + 'a" where
  "index1 xs = (case xs of _ # y # _ \<Rightarrow> Inr y | _ \<Rightarrow> Inl IndexError)"

text \<open>
  \<open>s.strip()\<close> removes leading and trailing whitespace, where whitespace is what
  \<open>str.isspace\<close> accepts (Unicode 14, the table of CPython 3.11).
\<close>

definition isspace :: "nat \<Rightarrow> bool" where
  "isspace c \<longleftrightarrow> c \<in> set [9, 10, 11, 12, 13, 28, 29, 30, 31, 32, 133, 160, 5760,
     8192, 8193, 8194, 8195, 8196, 8197, 8198, 8199, 8200, 8201, 8202,
     8232, 8233, 8239, 8287, 12288]"

definition strip :: "pstr \<Rightarrow> pstr" where
  "strip s = rev (dropWhile isspace (rev (dropWhile isspace s)))"

text \<open>
  \<open>int(s)\<close> for a string, base 10, as CPython does it. First every non-ASCII character is
  replaced: Unicode whitespace by a blank, a Unicode decimal digit by its ASCII digit,
  anything else by \<open>?\<close>. Then: optional ASCII whitespace, an optional sign, digits with
  single underscores between them, optional ASCII whitespace, end of string. Anything else
  raises \<open>ValueError\<close>. The decimal digits of Unicode come in runs of ten; \<open>decimal_bases\<close>
  lists the code point of each zero. A literal of more than 4300 digits is refused as well
  (the default of \<open>sys.set_int_max_str_digits\<close>): CPython counts the digits once the run of
  digits and underscores is found to be well formed, before it looks at what follows the run.
\<close>

definition decimal_bases :: "nat list" where
  "decimal_bases = [48, 1632, 1776, 1984, 2406, 2534, 2662, 2790, 2918, 3046, 3174, 3302,
     3430, 3558, 3664, 3792, 3872, 4160, 4240, 6112, 6160, 6470, 6608, 6784, 6800, 6992,
     7088, 7232, 7248, 42528, 43216, 43264, 43472, 43504, 43600, 44016, 65296, 66720,
     68912, 69734, 69872, 69942, 70096, 70384, 70736, 70864, 71248, 71360, 71472, 71904,
     72016, 72784, 73040, 73120, 92768, 92864, 93008, 120782, 120792, 120802, 120812,
     120822, 123200, 123632, 125264, 130032]"

definition to_decimal :: "nat \<Rightarrow> nat option" where
  "to_decimal c =
     (case filter (\<lambda>b. b \<le> c \<and> c < b + 10) decimal_bases of
        [] \<Rightarrow> None
      | b # _ \<Rightarrow> Some (c - b))"

definition transform_decimal_and_space :: "nat \<Rightarrow> nat" where
  "transform_decimal_and_space c =
     (if c < 128 then c
      else if isspace c then 32
      else case to_decimal c of Some d \<Rightarrow> 48 + d | None \<Rightarrow> 63)"

definition c_isspace :: "nat \<Rightarrow> bool" where
  "c_isspace c \<longleftrightarrow> c \<in> set [9, 10, 11, 12, 13, 32]"

definition digit_or_underscore :: "nat \<Rightarrow> bool" where
  "digit_or_underscore c \<longleftrightarrow> (48 \<le> c \<and> c \<le> 57) \<or> c = 95"

fun double_underscore :: "nat list \<Rightarrow> bool" where
  "double_underscore (a # b # cs) = ((a = 95 \<and> b = 95) \<or> double_underscore (b # cs))"
| "double_underscore _ = False"

definition digits_value :: "nat list \<Rightarrow> nat" where
  "digits_value ds = foldl (\<lambda>acc c. 10 * acc + (c - 48)) 0 ds"

definition invalid_literal :: error where
  "invalid_literal = ValueError ''invalid literal for int() with base 10''"

definition digit_limit :: error where
  "digit_limit = ValueError ''Exceeds the limit (4300 digits) for integer string conversion''"

definition long_from_string :: "nat list \<Rightarrow> error + int" where
  "long_from_string s =
     (let s1 = dropWhile c_isspace s;
          neg = (s1 \<noteq> [] \<and> hd s1 = 45);
          s2 = (if s1 \<noteq> [] \<and> (hd s1 = 43 \<or> hd s1 = 45) then tl s1 else s1);
          run = takeWhile digit_or_underscore s2;
          rest = dropWhile digit_or_underscore s2;
          ds = filter (\<lambda>c. c \<noteq> 95) run
      in if run = [] \<or> hd run = 95 \<or> last run = 95 \<or> double_underscore run
         then Inl invalid_literal
         else if 4300 < length ds
         then Inl digit_limit
         else if dropWhile c_isspace rest \<noteq> []
         then Inl invalid_literal
         else let n = int (digits_value ds)
              in Inr (if neg then - n else n))"

definition py_int :: "pstr \<Rightarrow> error + int" where
  "py_int s = long_from_string (map transform_decimal_and_space s)"

section \<open>The line-item parser\<close>

text \<open>
  The labels of an Item Description. \<open>name_label\<close> is the text whose presence makes a line
  a candidate item (line 64); the three prefixes and the two delimiters are the separators of
  lines 66 to 68 and 133 to 135.
\<close>

definition name_label :: pstr where
  "name_label = asc ''Product Name / '' @ [21830, 21697, 21517, 31281]"

definition name_prefix :: pstr where
  "name_prefix = asc ''Product Name / '' @ [21830, 21697, 21517, 31281] @ asc '': ''"

definition link_prefix :: pstr where
  "link_prefix = asc ''Product Link / '' @ [21830, 21697, 32178, 22336] @ asc '': ''"

definition quantity_prefix :: pstr where
  "quantity_prefix = asc ''Product Quantity / '' @ [25152, 38656, 25976, 37327] @ asc '': ''"

definition link_delim :: pstr where
  "link_delim = asc '', Product Link''"

definition quantity_delim :: pstr where
  "quantity_delim = asc '', Product Quantity''"

text \<open>
  \<open>parse_product_item\<close> (lines 131 to 136); the same three statements are lines 66 to 68
  of \<open>process_csv\<close>. The three fields are extracted in this order, and the first one that
  raises decides the error.
\<close>

definition parse_product_item :: "pstr \<Rightarrow> error + (pstr \<times> pstr \<times> int)" where
  "parse_product_item item =
     bindE (index1 (py_split item name_prefix)) (\<lambda>after_name.
     bindE (index0 (py_split after_name link_delim)) (\<lambda>name_text.
     bindE (index1 (py_split item link_prefix)) (\<lambda>after_link.
     bindE (index0 (py_split after_link quantity_delim)) (\<lambda>link_text.
     bindE (index1 (py_split item quantity_prefix)) (\<lambda>quantity_text.
     bindE (py_int (strip quantity_text)) (\<lambda>quantity.
       Inr (strip name_text, strip link_text, quantity)))))))"

text \<open>
  The Item Description a test writes for a triple, in the spec's words: the name label,
  the name, the link label, the link, the quantity label and the quantity, as in the
  scenario \<open>Product Name / ...: Figure A, Product Link / ...: http://..., Product Quantity / ...: 2\<close>.
  \<open>py_str\<close> is the decimal numeral of an integer, which is what Python's \<open>str\<close>
  returns for an integer of at most 4300 digits (beyond that \<open>str\<close> raises, as \<open>int\<close>
  does); \<open>decimal_digits\<close> is the number of digits.
\<close>

fun digits :: "nat \<Rightarrow> pstr" where
  "digits n = (if n < 10 then [48 + n] else digits (n div 10) @ [48 + n mod 10])"

declare digits.simps [simp del]

definition py_str :: "int \<Rightarrow> pstr" where
  "py_str q = (if q < 0 then 45 # digits (nat (- q)) else digits (nat q))"

definition decimal_digits :: "int \<Rightarrow> nat" where
  "decimal_digits q = length (digits (nat \<bar>q\<bar>))"

definition render_item :: "pstr \<Rightarrow> pstr \<Rightarrow> int \<Rightarrow> pstr" where
  "render_item name link quantity =
     name_prefix @ name @ asc '', '' @ link_prefix @ link @ asc '', ''
       @ quantity_prefix @ py_str quantity"

section \<open>The page fetcher\<close>

text \<open>
  \<open>fetch_product_details\<close> (lines 21 to 50) talks to a browser. What the browser does is
  the input of the model: a \<open>browser_run\<close> says, for each call the function makes in the
  order it makes them, whether the call returns (and what) or raises. An element is known
  by what its \<open>inner_text()\<close> does. Each of the two conditional expressions of lines 38
  and 39 calls \<open>query_selector\<close> twice, first in the test and then to read the text.
\<close>

datatype 'a outcome = Raises | Returns 'a

type_synonym element = "pstr outcome"

record browser_run =
  playwright_starts :: bool
  launch_returns :: bool
  new_page_returns :: bool
  goto_returns :: bool
  wait_reference_returns :: bool
  wait_price_returns :: bool
  reference_test :: "element option outcome"
  reference_read :: "element option outcome"
  price_test :: "element option outcome"
  price_read :: "element option outcome"
  close_returns :: bool

definition reference_not_found :: pstr where
  "reference_not_found = asc ''Reference not found''"

definition price_not_found :: pstr where
  "price_not_found = asc ''Price not found''"

text \<open>
  \<open>page.query_selector(sel).inner_text().strip() if page.query_selector(sel) else sentinel\<close>:
  the test is evaluated first; an element is truthy, \<open>None\<close> is not. When the second
  query returns \<open>None\<close> the attribute access raises.
\<close>

definition read_field :: "element option outcome \<Rightarrow> element option outcome \<Rightarrow> pstr \<Rightarrow> pstr outcome" where
  "read_field test read sentinel =
     (case test of
        Raises \<Rightarrow> Raises
      | Returns None \<Rightarrow> Returns sentinel
      | Returns (Some _) \<Rightarrow>
          (case read of
             Raises \<Rightarrow> Raises
           | Returns None \<Rightarrow> Raises
           | Returns (Some el) \<Rightarrow>
               (case el of Raises \<Rightarrow> Raises | Returns t \<Rightarrow> Returns (strip t))))"

text \<open>
  The calls that matter for the browser's lifetime, in the order they happen: \<open>Start\<close> is
  the entry of the \<open>with sync_playwright()\<close> block, \<open>Launch\<close> the call of line 25,
  \<open>Close\<close> the call \<open>browser.close()\<close> of line 46, and \<open>Stop\<close> the exit of the
  \<open>with\<close> block, which Python runs on every way out of the block, before the \<open>except\<close>
  clause of line 48.
\<close>

datatype event = Start | Launch | Close | Stop

text \<open>Lines 25 to 47, the body of the \<open>with\<close> block: its result and its events.\<close>

definition with_body :: "browser_run \<Rightarrow> (pstr \<times> pstr) outcome \<times> event list" where
  "with_body r =
     (if \<not> launch_returns r then (Raises, [])
      else if \<not> new_page_returns r then (Raises, [Launch])
      else if \<not> goto_returns r then (Raises, [Launch])
      else if \<not> wait_reference_returns r then (Raises, [Launch])
      else if \<not> wait_price_returns r then (Raises, [Launch])
      else case read_field (reference_test r) (reference_read r) reference_not_found of
             Raises \<Rightarrow> (Raises, [Launch])
           | Returns reference \<Rightarrow>
               (case read_field (price_test r) (price_read r) price_not_found of
                  Raises \<Rightarrow> (Raises, [Launch])
                | Returns price \<Rightarrow>
                    if close_returns r then (Returns (reference, price), [Launch, Close])
                    else (Raises, [Launch])))"

text \<open>
  The whole function: \<open>try\<close> around \<open>with\<close>. \<open>Raises\<close> stands for an exception of
  class \<open>Exception\<close> (a timeout, a failed navigation, a crashed page, an attribute of
  \<open>None\<close>), which is what \<open>except Exception\<close> catches and turns into \<open>(None, None)\<close>;
  an interrupt of the process is not a browser outcome and is outside the model. The
  result is the returned pair and the events of the call.
\<close>

definition fetch_product_details :: "browser_run \<Rightarrow> (pstr option \<times> pstr option) \<times> event list" where
  "fetch_product_details r =
     (if \<not> playwright_starts r then ((None, None), [])
      else case with_body r of
             (Raises, evs) \<Rightarrow> ((None, None), Start # evs @ [Stop])
           | (Returns (reference, price), evs) \<Rightarrow>
               ((Some reference, Some price), Start # evs @ [Stop]))"

text \<open>
  Whether the program has left a browser open after a sequence of its calls: \<open>launch\<close>
  opens one, and the only call of the program that closes it is \<open>browser.close()\<close>. What
  entering and leaving the \<open>with sync_playwright()\<close> block do to a browser is Playwright's
  business and nothing the program says; they change nothing here.
\<close>

fun browser_open_after :: "bool \<Rightarrow> event list \<Rightarrow> bool" where
  "browser_open_after b [] = b"
| "browser_open_after b (Start # evs) = browser_open_after b evs"
| "browser_open_after b (Launch # evs) = browser_open_after True evs"
| "browser_open_after b (Close # evs) = browser_open_after False evs"
| "browser_open_after b (Stop # evs) = browser_open_after b evs"

section \<open>The batch processor\<close>

text \<open>
  A cell of the table \<open>pandas.read_csv\<close> returns holds a value or, for an empty field,
  the float \<open>NaN\<close>. An Order Record is one row: the columns the program reads.
\<close>

datatype 'a cell = Val 'a | NaN

record ('c, 'd) order_record =
  customer :: 'c
  phone :: "pstr cell"
  submission_date :: "'d cell"
  item_blob :: "pstr cell"

text \<open>\<open>format_phone_number\<close> (lines 17 to 19): \<open>f"'{phone}"\<close>; \<open>NaN\<close> prints as \<open>nan\<close>.\<close>

definition format_phone_number :: "pstr cell \<Rightarrow> pstr" where
  "format_phone_number p = (case p of Val s \<Rightarrow> 39 # s | NaN \<Rightarrow> 39 # asc ''nan'')"

text \<open>
  A row of the \<open>products\<close> list is a Python list of strings and integers, of one of two
  shapes (lines 84 and 86). \<open>PNone\<close> is the missing value a data frame puts where a row is
  shorter than the frame. Ledger and rejected rows have one shape each.
\<close>

datatype pyval = S pstr | I int | PNone

record ('c, 'd) ledger_entry =
  l_name :: pstr
  l_quantity :: int
  l_customer :: 'c
  l_phone :: pstr
  l_date :: "'d cell"
  l_link :: pstr

record ('c, 'd) rejected_entry =
  r_customer :: 'c
  r_phone :: pstr
  r_date :: "'d cell"
  r_invalid_entry :: pstr

text \<open>
  The three accumulators of \<open>process_csv\<close>, and the number of fetches made so far: the
  web is a function from that number and the URL to what the browser does on that call, so
  that two fetches of one URL may differ.
\<close>

record ('c, 'd) tables =
  products :: "pyval list list"
  bookkeeping_data :: "('c, 'd) ledger_entry list"
  incorrect_entries :: "('c, 'd) rejected_entry list"
  fetches :: nat

type_synonym web = "nat \<Rightarrow> pstr \<Rightarrow> browser_run"

definition falsy :: "pstr option \<Rightarrow> bool" where
  "falsy v = (case v of None \<Rightarrow> True | Some s \<Rightarrow> s = [])"

text \<open>
  Lines 66 to 86, the \<open>try\<close> block up to the append to \<open>products\<close>: the exception raised,
  or the product row with the name, link and quantity; and the number of fetches after it.
\<close>

definition try_block :: "web \<Rightarrow> nat \<Rightarrow> pstr \<Rightarrow> (error + (pyval list \<times> pstr \<times> pstr \<times> int)) \<times> nat" where
  "try_block w n item =
     (case parse_product_item item of
        Inl e \<Rightarrow> (Inl e, n)
      | Inr (name, link, quantity) \<Rightarrow>
          if \<not> startswith link (asc ''http'')
          then (Inl (ValueError ''Link does not start with http''), n)
          else if link = [] \<or> name = [] \<or> quantity \<le> 0
          then (Inl (ValueError ''Invalid product data''), n)
          else if py_in (asc ''corvusbelli.com'') link
          then (case fst (fetch_product_details (w n link)) of
                  (ref_number, euro_price) \<Rightarrow>
                    if falsy ref_number \<or> falsy euro_price
                    then (Inl (ValueError ''Failed to fetch reference number or price''), Suc n)
                    else (Inr ([S (case ref_number of Some t \<Rightarrow> t | None \<Rightarrow> []), S name, S link,
                                S (case euro_price of Some t \<Rightarrow> t | None \<Rightarrow> []), I quantity],
                               name, link, quantity), Suc n))
          else (Inr ([S name, I quantity, S link], name, link, quantity), n))"

text \<open>
  Lines 64 to 105 for one line of the blob: a line without the name label is ignored; the
  \<open>try\<close> block either appends to \<open>products\<close> and \<open>bookkeeping_data\<close>, or its exception
  is caught and the raw line is appended to \<open>incorrect_entries\<close>.
\<close>

definition process_item :: "web \<Rightarrow> ('c, 'd) order_record \<Rightarrow> ('c, 'd) tables \<Rightarrow> pstr \<Rightarrow> ('c, 'd) tables" where
  "process_item w row st item =
     (if \<not> py_in name_label item then st
      else case try_block w (fetches st) item of
             (Inr (product, name, link, quantity), n) \<Rightarrow>
               st\<lparr>products := products st @ [product],
                  bookkeeping_data := bookkeeping_data st @
                    [\<lparr>l_name = name, l_quantity = quantity, l_customer = customer row,
                      l_phone = format_phone_number (phone row), l_date = submission_date row,
                      l_link = link\<rparr>],
                  fetches := n\<rparr>
           | (Inl e, n) \<Rightarrow>
               st\<lparr>incorrect_entries := incorrect_entries st @
                    [\<lparr>r_customer = customer row, r_phone = format_phone_number (phone row),
                      r_date = submission_date row, r_invalid_entry = item\<rparr>],
                  fetches := n\<rparr>)"

text \<open>
  Lines 61 to 63: the blob is split at line breaks outside the \<open>try\<close>. A blob that is not
  a string has no \<open>split\<close>: the \<open>AttributeError\<close> leaves \<open>process_csv\<close>.
\<close>

definition process_row :: "web \<Rightarrow> ('c, 'd) tables \<Rightarrow> ('c, 'd) order_record \<Rightarrow> error + ('c, 'd) tables" where
  "process_row w st row =
     (case item_blob row of
        NaN \<Rightarrow> Inl AttributeError
      | Val blob \<Rightarrow> Inr (foldl (process_item w row) st (py_split blob [10])))"

fun process_rows :: "web \<Rightarrow> ('c, 'd) tables \<Rightarrow> ('c, 'd) order_record list \<Rightarrow> error + ('c, 'd) tables" where
  "process_rows w st [] = Inr st"
| "process_rows w st (row # rows) =
     (case process_row w st row of
        Inl e \<Rightarrow> Inl e
      | Inr st' \<Rightarrow> process_rows w st' rows)"

definition empty_tables :: "('c, 'd) tables" where
  "empty_tables = \<lparr>products = [], bookkeeping_data = [], incorrect_entries = [], fetches = 0\<rparr>"

text \<open>
  Lines 110 and 111. \<open>p[2]\<close> is the third element of a product row, and
  \<open>marker in p[2]\<close> needs it to be a string.
\<close>

definition index2 :: "pyval list \<Rightarrow> error + pyval" where
  "index2 p = (case p of _ # _ # x # _ \<Rightarrow> Inr x | _ \<Rightarrow> Inl IndexError)"

definition marker_in :: "pstr \<Rightarrow> pyval \<Rightarrow> error + bool" where
  "marker_in marker v = (case v of S s \<Rightarrow> Inr (py_in marker s) | _ \<Rightarrow> Inl TypeError)"

fun select_rows :: "pstr \<Rightarrow> pyval list list \<Rightarrow> error + pyval list list" where
  "select_rows marker [] = Inr []"
| "select_rows marker (p # ps) =
     bindE (index2 p) (\<lambda>v.
     bindE (marker_in marker v) (\<lambda>hit.
     bindE (select_rows marker ps) (\<lambda>rest.
       Inr (if hit then p # rest else rest))))"

text \<open>
  \<open>pd.DataFrame(rows, columns=...)\<close> with \<open>k\<close> column names: the longest row decides the
  width of the data, shorter rows are filled with the missing value, and a width other than
  \<open>k\<close> raises \<open>ValueError\<close>. No rows give an empty frame.
\<close>

definition data_frame :: "nat \<Rightarrow> pyval list list \<Rightarrow> error + pyval list list" where
  "data_frame k rows =
     (if rows = [] then Inr []
      else if fold max (map length rows) 0 = k
      then Inr (map (\<lambda>p. p @ replicate (k - length p) PNone) rows)
      else Inl (ValueError ''columns passed, passed data had a different number of columns''))"

text \<open>
  \<open>sort_values(by='Date')\<close>: ascending, missing dates last. The order pandas leaves
  between rows of equal date is not fixed by its default sort; here they keep the order
  they had: a row is put before the first row whose date is not smaller.
\<close>

fun date_le :: "('d::linorder) cell \<Rightarrow> 'd cell \<Rightarrow> bool" where
  "date_le (Val a) (Val b) = (a \<le> b)"
| "date_le _ NaN = True"
| "date_le NaN (Val _) = False"

fun insert_by_date :: "('c, 'd::linorder) ledger_entry \<Rightarrow> ('c, 'd) ledger_entry list \<Rightarrow> ('c, 'd) ledger_entry list" where
  "insert_by_date e [] = [e]"
| "insert_by_date e (x # xs) =
     (if date_le (l_date e) (l_date x) then e # x # xs else x # insert_by_date e xs)"

definition sort_values_by_date :: "('c, 'd::linorder) ledger_entry list \<Rightarrow> ('c, 'd) ledger_entry list" where
  "sort_values_by_date es = foldr insert_by_date es []"

text \<open>Lines 124 and 125: \<open>df_bookkeeping[df_bookkeeping['Link'].str.contains(marker)]\<close>.\<close>

definition link_contains :: "pstr \<Rightarrow> ('c, 'd) ledger_entry list \<Rightarrow> ('c, 'd) ledger_entry list" where
  "link_contains marker es = filter (\<lambda>e. py_in marker (l_link e)) es"

text \<open>
  The five tables a run writes; the rejected-entries report only when it has rows
  (line 126).
\<close>

record ('c, 'd) reports =
  corvus_belli :: "pyval list list"
  games_workshop :: "pyval list list"
  infinity_bookkeeping :: "('c, 'd) ledger_entry list"
  gw_bookkeeping :: "('c, 'd) ledger_entry list"
  incorrect_report :: "('c, 'd) rejected_entry list option"

text \<open>Lines 109 to 127, from the accumulators to the tables.\<close>

definition build_reports :: "('c, 'd::linorder) tables \<Rightarrow> error + ('c, 'd) reports" where
  "build_reports st =
     bindE (select_rows (asc ''corvusbelli.com'') (products st)) (\<lambda>corvus_rows.
     bindE (data_frame 5 corvus_rows) (\<lambda>corvus_belli_df.
     bindE (select_rows (asc ''warhammer'') (products st)) (\<lambda>gw_rows.
     bindE (data_frame 3 gw_rows) (\<lambda>games_workshop_df.
       Inr \<lparr>corvus_belli = corvus_belli_df,
            games_workshop = games_workshop_df,
            infinity_bookkeeping =
              sort_values_by_date (link_contains (asc ''corvusbelli'') (bookkeeping_data st)),
            gw_bookkeeping =
              sort_values_by_date (link_contains (asc ''warhammer'') (bookkeeping_data st)),
            incorrect_report =
              (if incorrect_entries st = [] then None else Some (incorrect_entries st))\<rparr>))))"

text \<open>
  \<open>process_csv\<close> (lines 55 to 129) on the table read from the file: the rows in order,
  then the reports. \<open>Inl\<close> is an exception that leaves the function.
\<close>

definition process_csv :: "web \<Rightarrow> ('c, 'd::linorder) order_record list \<Rightarrow> error + ('c, 'd) reports" where
  "process_csv w data = bindE (process_rows w empty_tables data) build_reports"

text \<open>
  The candidate Item Descriptions of a table, in the order the loop meets them: the lines
  of every blob that contain the name label (lines 62 to 64).
\<close>

definition candidate_items :: "('c, 'd) order_record list \<Rightarrow> pstr list" where
  "candidate_items data =
     concat (map (\<lambda>row. case item_blob row of
                           NaN \<Rightarrow> []
                         | Val blob \<Rightarrow> filter (py_in name_label) (py_split blob [10])) data)"

text \<open>
  Whether a row of \<open>products\<close> passes the test \<open>marker in p[2]\<close> of lines 110 and 111.
\<close>

definition passes :: "pstr \<Rightarrow> pyval list \<Rightarrow> bool" where
  "passes marker p = (bindE (index2 p) (marker_in marker) = Inr True)"

text \<open>
  How a row of \<open>products\<close> and the ledger entry appended with it (lines 84 to 95)
  belong together: the enriched shape for a link with the reference-priced vendor's
  marker, the direct shape otherwise, with the entry's name, link and quantity.
\<close>

definition aligned :: "pyval list \<Rightarrow> ('c, 'd) ledger_entry \<Rightarrow> bool" where
  "aligned p e =
     ((py_in (asc ''corvusbelli.com'') (l_link e)
         \<and> (\<exists>r pr. p = [S r, S (l_name e), S (l_link e), S pr, I (l_quantity e)]))
      \<or> (\<not> py_in (asc ''corvusbelli.com'') (l_link e)
         \<and> p = [S (l_name e), I (l_quantity e), S (l_link e)]))"

text \<open>
  A partition of the candidates by a list of flags, one per candidate: the candidates
  flagged accepted and those flagged rejected, each in their order.
\<close>

definition accepted_of :: "pstr list \<Rightarrow> bool list \<Rightarrow> pstr list" where
  "accepted_of items flags = map fst (filter snd (zip items flags))"

definition rejected_of :: "pstr list \<Rightarrow> bool list \<Rightarrow> pstr list" where
  "rejected_of items flags = map fst (filter (\<lambda>x. \<not> snd x) (zip items flags))"

text \<open>The item identity of a ledger entry.\<close>

definition identity :: "('c, 'd) ledger_entry \<Rightarrow> pstr \<times> pstr \<times> int" where
  "identity e = (l_name e, l_link e, l_quantity e)"

text \<open>
  The accumulators partition a list of candidates: some flags split the candidates so that
  the rejected ones are, in order, the raw texts of \<open>incorrect_entries\<close>, and the accepted
  ones parse, in order, to the identities of \<open>bookkeeping_data\<close>.
\<close>

definition partitioned :: "('c, 'd) tables \<Rightarrow> pstr list \<Rightarrow> bool" where
  "partitioned st items =
     (\<exists>flags. length flags = length items
        \<and> map r_invalid_entry (incorrect_entries st) = rejected_of items flags
        \<and> map (\<lambda>e. Inr (identity e)) (bookkeeping_data st)
            = map parse_product_item (accepted_of items flags))"

section \<open>Concrete inputs\<close>

text \<open>
  Browser runs: one in which every call returns and both markers are found; one in which
  the wait for the reference marker times out; one in which both waits return but the
  reference element is gone when it is queried.
\<close>

definition good_run :: browser_run where
  "good_run = \<lparr>playwright_starts = True, launch_returns = True, new_page_returns = True,
     goto_returns = True, wait_reference_returns = True, wait_price_returns = True,
     reference_test = Returns (Some (Returns (asc ''REF123''))),
     reference_read = Returns (Some (Returns (asc ''REF123''))),
     price_test = Returns (Some (Returns (asc ''45''))),
     price_read = Returns (Some (Returns (asc ''45''))),
     close_returns = True\<rparr>"

definition timeout_run :: browser_run where
  "timeout_run = good_run\<lparr>wait_reference_returns := False\<rparr>"

definition sentinel_run :: browser_run where
  "sentinel_run = good_run\<lparr>reference_test := Returns None\<rparr>"

text \<open>
  Further runs: the reference element is found and its text has blanks around it; the
  reference element is found by the test and gone when it is read.
\<close>

definition padded_run :: browser_run where
  "padded_run = good_run\<lparr>reference_read := Returns (Some (Returns (asc ''  REF123 '')))\<rparr>"

definition vanishing_run :: browser_run where
  "vanishing_run = good_run\<lparr>reference_read := Returns None\<rparr>"

text \<open>Order records with one Item Description each, and one with an empty blob.\<close>

definition order_of :: "pstr \<Rightarrow> pstr cell \<Rightarrow> (pstr, pstr) order_record" where
  "order_of day blob =
     \<lparr>customer = asc ''Lin'', phone = Val (asc ''0912345678''),
      submission_date = Val day, item_blob = blob\<rparr>"

definition figure_a :: pstr where
  "figure_a = asc ''Figure A''"

definition warhammer_link :: pstr where
  "warhammer_link = asc ''http://warhammer.example/x''"

definition corvus_link :: pstr where
  "corvus_link = asc ''http://corvusbelli.com/x''"

definition other_link :: pstr where
  "other_link = asc ''http://example.com/x''"

definition both_link :: pstr where
  "both_link = asc ''http://corvusbelli.com/warhammer''"

definition label_link :: pstr where
  "label_link = asc ''http://warhammer.example/'' @ name_prefix @ asc ''x''"

definition garbage_link :: pstr where
  "garbage_link = asc ''httpgarbage''"

definition day_3 :: pstr where
  "day_3 = asc ''2024-01-03''"

definition day_5 :: pstr where
  "day_5 = asc ''2024-01-05''"

text \<open>
  A table of four orders: one for the reference-priced vendor, two for the second vendor
  with the later date first, and one for neither vendor.
\<close>

definition mixed_orders :: "(pstr, pstr) order_record list" where
  "mixed_orders =
     [order_of day_5 (Val (render_item figure_a corvus_link 1)),
      order_of day_5 (Val (render_item figure_a warhammer_link 2)),
      order_of day_3 (Val (render_item figure_a warhammer_link 3)),
      order_of day_3 (Val (render_item figure_a other_link 4))]"

definition lost_order :: "(pstr, pstr) order_record list" where
  "lost_order = [order_of day_3 (Val (render_item figure_a other_link 4))]"

definition sentinel_order :: "(pstr, pstr) order_record list" where
  "sentinel_order = [order_of day_3 (Val (render_item figure_a corvus_link 2))]"

definition both_order :: "(pstr, pstr) order_record list" where
  "both_order = [order_of day_3 (Val (render_item figure_a both_link 1))]"

definition empty_blob_orders :: "(pstr, pstr) order_record list" where
  "empty_blob_orders =
     [order_of day_5 (Val (render_item figure_a warhammer_link 2)),
      order_of day_3 NaN,
      order_of day_3 (Val (render_item figure_a warhammer_link 3))]"

text \<open>What the run on \<open>mixed_orders\<close> accumulates and reports, with every fetch good.\<close>

definition entry_of :: "pstr \<Rightarrow> pstr \<Rightarrow> int \<Rightarrow> (pstr, pstr) ledger_entry" where
  "entry_of day link quantity =
     \<lparr>l_name = figure_a, l_quantity = quantity, l_customer = asc ''Lin'',
      l_phone = 39 # asc ''0912345678'', l_date = Val day, l_link = link\<rparr>"

definition mixed_tables :: "(pstr, pstr) tables" where
  "mixed_tables =
     \<lparr>products =
        [[S (asc ''REF123''), S figure_a, S corvus_link, S (asc ''45''), I 1],
         [S figure_a, I 2, S warhammer_link],
         [S figure_a, I 3, S warhammer_link],
         [S figure_a, I 4, S other_link]],
      bookkeeping_data =
        [entry_of day_5 corvus_link 1, entry_of day_5 warhammer_link 2,
         entry_of day_3 warhammer_link 3, entry_of day_3 other_link 4],
      incorrect_entries = [], fetches = 1\<rparr>"

definition mixed_reports :: "(pstr, pstr) reports" where
  "mixed_reports =
     \<lparr>corvus_belli = [[S (asc ''REF123''), S figure_a, S corvus_link, S (asc ''45''), I 1]],
      games_workshop = [[S figure_a, I 2, S warhammer_link], [S figure_a, I 3, S warhammer_link]],
      infinity_bookkeeping = [entry_of day_5 corvus_link 1],
      gw_bookkeeping = [entry_of day_3 warhammer_link 3, entry_of day_5 warhammer_link 2],
      incorrect_report = None\<rparr>"

text \<open>
  Item Descriptions that must be rejected: a quantity of \<open>-1\<close>, a quantity that is not a
  number, and a link without the scheme prefix. And two names that do not survive the
  parser: one with a leading blank, one that contains the text of a delimiter.
\<close>

definition minus_one_item :: pstr where
  "minus_one_item = render_item figure_a warhammer_link (- 1)"

definition two_item :: pstr where
  "two_item = name_prefix @ figure_a @ asc '', '' @ link_prefix @ warhammer_link @ asc '', ''
       @ quantity_prefix @ asc ''two''"

definition www_link :: pstr where
  "www_link = asc ''www.warhammer.example/x''"

definition padded_name :: pstr where
  "padded_name = 32 # figure_a"

definition delimiter_name :: pstr where
  "delimiter_name = asc ''A, Product Link B''"

section \<open>Facts about the string operations\<close>

lemma name_prefix_chars:
  "name_prefix = [80, 114, 111, 100, 117, 99, 116, 32, 78, 97, 109, 101, 32, 47, 32,
                  21830, 21697, 21517, 31281, 58, 32]"
  by (simp add: name_prefix_def asc_def)

lemma link_prefix_chars:
  "link_prefix = [80, 114, 111, 100, 117, 99, 116, 32, 76, 105, 110, 107, 32, 47, 32,
                  21830, 21697, 32178, 22336, 58, 32]"
  by (simp add: link_prefix_def asc_def)

lemma quantity_prefix_chars:
  "quantity_prefix = [80, 114, 111, 100, 117, 99, 116, 32, 81, 117, 97, 110, 116, 105, 116, 121,
                      32, 47, 32, 25152, 38656, 25976, 37327, 58, 32]"
  by (simp add: quantity_prefix_def asc_def)

lemma link_delim_chars:
  "link_delim = [44, 32, 80, 114, 111, 100, 117, 99, 116, 32, 76, 105, 110, 107]"
  by (simp add: link_delim_def asc_def)

lemma quantity_delim_chars:
  "quantity_delim = [44, 32, 80, 114, 111, 100, 117, 99, 116, 32, 81, 117, 97, 110, 116, 105, 116, 121]"
  by (simp add: quantity_delim_def asc_def)

lemma name_label_chars:
  "name_label = [80, 114, 111, 100, 117, 99, 116, 32, 78, 97, 109, 101, 32, 47, 32,
                 21830, 21697, 21517, 31281]"
  by (simp add: name_label_def asc_def)

lemmas label_chars = name_prefix_chars link_prefix_chars quantity_prefix_chars
  link_delim_chars quantity_delim_chars

lemma prefix_within: "prefix p (u @ v) \<Longrightarrow> length p \<le> length u \<Longrightarrow> prefix p u"
  by (metis prefix_length_prefix prefixI)

lemma prefix_across:
  assumes "prefix p (u @ c # v)" and "\<not> prefix p u"
  shows "c \<in> set (drop (length u) p)"
proof -
  from assms(1) obtain z where z: "u @ c # v = p @ z"
    by (auto simp: prefix_def)
  have "length u < length p"
    using assms prefix_within [of p u "c # v"] by (meson not_le_imp_less)
  with z obtain r where "p = u @ c # r"
    by (auto simp: append_eq_append_conv2 Cons_eq_append_conv)
  then show ?thesis by simp
qed

lemma py_in_separator:
  assumes "c \<notin> set (tl p)"
  shows "py_in p (a @ c # b) = (py_in p a \<or> py_in p (c # b))"
proof (induction a)
  case Nil
  show ?case by (cases p) auto
next
  case (Cons x a)
  have "prefix p (x # a @ c # b) \<Longrightarrow> prefix p (x # a)"
  proof (rule ccontr)
    assume pre: "prefix p (x # a @ c # b)" and no: "\<not> prefix p (x # a)"
    from prefix_across [of p "x # a" c b] pre no
    have "c \<in> set (drop (Suc (length a)) p)" by simp
    then have "c \<in> set (tl p)"
      by (metis drop_Suc in_set_dropD)
    with assms show False by simp
  qed
  moreover have "prefix p (x # a) \<Longrightarrow> prefix p (x # a @ c # b)"
    by (metis append_Cons prefix_prefix)
  ultimately show ?case using Cons.IH by auto
qed

lemma partition_first_found:
  "p \<noteq> [] \<Longrightarrow> \<not> py_in p (a @ butlast p) \<Longrightarrow> partition_first p (a @ p @ b) = Some (a, b)"
proof (induction a)
  case Nil
  then show ?case by (cases p) auto
next
  case (Cons x a)
  from Cons.prems have no_pre: "\<not> prefix p (x # a @ butlast p)" and rest: "\<not> py_in p (a @ butlast p)"
    by auto
  have "\<not> prefix p (x # a @ p @ b)"
  proof
    assume "prefix p (x # a @ p @ b)"
    moreover have "p @ b = butlast p @ last p # b"
      using Cons.prems(1) by (metis append.assoc append_Cons append_Nil append_butlast_last_id)
    ultimately have "prefix p ((x # a @ butlast p) @ (last p # b))"
      by simp
    moreover have "length p \<le> length (x # a @ butlast p)"
      by simp
    ultimately have "prefix p (x # a @ butlast p)"
      by (rule prefix_within)
    with no_pre show False ..
  qed
  with Cons.IH [OF Cons.prems(1) rest] show ?case by simp
qed

lemma partition_first_none: "p \<noteq> [] \<Longrightarrow> \<not> py_in p s \<Longrightarrow> partition_first p s = None"
  by (induction s) auto

lemma partition_first_skip:
  "\<not> py_in p u \<Longrightarrow> c \<notin> set p \<Longrightarrow>
   partition_first p (u @ c # x) = map_option (\<lambda>(a, b). (u @ c # a, b)) (partition_first p x)"
proof (induction u)
  case Nil
  then have "p \<noteq> []" by auto
  with Nil have "\<not> prefix p (c # x)" by (cases p) auto
  then show ?case by simp
next
  case (Cons y u)
  from Cons.prems have np: "\<not> prefix p (y # u)" and nu: "\<not> py_in p u"
    by auto
  have "\<not> prefix p (y # u @ c # x)"
  proof
    assume "prefix p (y # u @ c # x)"
    with np have "c \<in> set (drop (length (y # u)) p)"
      using prefix_across [of p "y # u" c x] by simp
    then have "c \<in> set p" by (meson in_set_dropD)
    with Cons.prems show False by simp
  qed
  with Cons.IH [OF nu Cons.prems(2)] show ?case
    by (cases "partition_first p x") auto
qed

lemma py_split_found:
  "p \<noteq> [] \<Longrightarrow> \<not> py_in p (a @ butlast p) \<Longrightarrow> py_split (a @ p @ b) p = a # py_split b p"
  by (subst py_split.simps) (simp add: partition_first_found)

lemma py_split_none: "p \<noteq> [] \<Longrightarrow> \<not> py_in p s \<Longrightarrow> py_split s p = [s]"
  by (subst py_split.simps) (simp add: partition_first_none)

lemma py_in_needs_head: "c \<notin> set s \<Longrightarrow> \<not> py_in (c # p) s"
  by (induction s) auto


lemma digits_nonempty: "digits n \<noteq> []"
  by (subst digits.simps) simp

lemma digits_chars: "set (digits n) \<subseteq> {48..57}"
proof (induction n rule: digits.induct)
  case (1 n)
  show ?case
  proof (cases "n < 10")
    case True
    then show ?thesis by (subst digits.simps) simp
  next
    case False
    have "n mod 10 < 10" by simp
    then have "48 + n mod 10 \<in> {48..57}" by (simp del: mod_less_divisor)
    with 1 False show ?thesis by (subst digits.simps) simp
  qed
qed

lemma digits_value_snoc: "digits_value (ds @ [d]) = 10 * digits_value ds + (d - 48)"
  by (simp add: digits_value_def)

lemma digits_value_digits: "digits_value (digits n) = n"
proof (induction n rule: digits.induct)
  case (1 n)
  show ?case
  proof (cases "n < 10")
    case True
    then show ?thesis by (subst digits.simps) (simp add: digits_value_def)
  next
    case False
    with 1 show ?thesis by (subst digits.simps) (simp add: digits_value_snoc)
  qed
qed

lemma no_double_underscore: "95 \<notin> set ds \<Longrightarrow> \<not> double_underscore ds"
  by (induction ds rule: double_underscore.induct) auto

lemma long_from_string_digits:
  assumes "length (digits n) \<le> 4300"
  shows "long_from_string (digits n) = Inr (int n)"
proof -
  let ?ds = "digits n"
  have chars: "\<forall>c\<in>set ?ds. 48 \<le> c \<and> c \<le> 57"
    using digits_chars [of n] by auto
  have ne: "?ds \<noteq> []" by (rule digits_nonempty)
  then have hd_in: "hd ?ds \<in> set ?ds" and last_in: "last ?ds \<in> set ?ds"
    by simp_all
  have nospace: "dropWhile c_isspace ?ds = ?ds"
    using ne hd_in chars by (cases ?ds) (auto simp: c_isspace_def)
  have run: "takeWhile digit_or_underscore ?ds = ?ds"
    using chars by (simp add: digit_or_underscore_def)
  have rest: "dropWhile digit_or_underscore ?ds = []"
    using chars by (simp add: digit_or_underscore_def)
  have no95: "95 \<notin> set ?ds" using chars by auto
  then have filt: "filter (\<lambda>c. c \<noteq> 95) ?ds = ?ds"
    by (auto intro: filter_True)
  have hd_ok: "hd ?ds \<noteq> 43" "hd ?ds \<noteq> 45" "hd ?ds \<noteq> 95" and last_ok: "last ?ds \<noteq> 95"
    using hd_in last_in chars by auto
  have lim: "\<not> 4300 < length ?ds" using assms by simp
  show ?thesis
    unfolding long_from_string_def
    by (simp add: Let_def nospace run rest filt hd_ok last_ok ne no95 no_double_underscore
        digits_value_digits lim)
qed

lemma long_from_string_minus_digits:
  assumes "length (digits n) \<le> 4300"
  shows "long_from_string (45 # digits n) = Inr (- int n)"
proof -
  let ?ds = "digits n"
  have chars: "\<forall>c\<in>set ?ds. 48 \<le> c \<and> c \<le> 57"
    using digits_chars [of n] by auto
  have ne: "?ds \<noteq> []" by (rule digits_nonempty)
  then have hd_in: "hd ?ds \<in> set ?ds" and last_in: "last ?ds \<in> set ?ds"
    by simp_all
  have run: "takeWhile digit_or_underscore ?ds = ?ds"
    using chars by (simp add: digit_or_underscore_def)
  have rest: "dropWhile digit_or_underscore ?ds = []"
    using chars by (simp add: digit_or_underscore_def)
  have no95: "95 \<notin> set ?ds" using chars by auto
  then have filt: "filter (\<lambda>c. c \<noteq> 95) ?ds = ?ds"
    by (auto intro: filter_True)
  have hd_ok: "hd ?ds \<noteq> 95" and last_ok: "last ?ds \<noteq> 95"
    using hd_in last_in chars by auto
  have lim: "\<not> 4300 < length ?ds" using assms by simp
  show ?thesis
    unfolding long_from_string_def
    by (simp add: Let_def c_isspace_def run rest filt hd_ok last_ok ne no95 no_double_underscore
        digits_value_digits lim)
qed

lemma py_str_chars: "set (py_str q) \<subseteq> insert 45 {48..57}"
  using digits_chars by (auto simp: py_str_def)

lemma transform_py_str: "map transform_decimal_and_space (py_str q) = py_str q"
proof -
  have "\<forall>c\<in>set (py_str q). transform_decimal_and_space c = c"
    using py_str_chars [of q] by (auto simp: transform_decimal_and_space_def)
  then show ?thesis by (simp add: map_idI)
qed

lemma py_int_py_str:
  assumes "decimal_digits q \<le> 4300"
  shows "py_int (py_str q) = Inr q"
proof -
  have "long_from_string (py_str q) = Inr q"
  proof (cases "q < 0")
    case True
    then have "nat \<bar>q\<bar> = nat (- q)" by simp
    with assms have "length (digits (nat (- q))) \<le> 4300"
      by (simp add: decimal_digits_def)
    with True show ?thesis
      by (simp add: py_str_def long_from_string_minus_digits)
  next
    case False
    then have "nat \<bar>q\<bar> = nat q" by simp
    with assms have "length (digits (nat q)) \<le> 4300"
      by (simp add: decimal_digits_def)
    with False show ?thesis
      by (simp add: py_str_def long_from_string_digits)
  qed
  then show ?thesis by (simp add: py_int_def transform_py_str)
qed

lemma few_digits: "\<bar>q\<bar> < 10 \<Longrightarrow> decimal_digits q \<le> 4300"
  by (simp add: decimal_digits_def digits.simps)

lemma dropWhile_rev_last: "s \<noteq> [] \<Longrightarrow> \<not> P (last s) \<Longrightarrow> dropWhile P (rev s) = rev s"
  by (induction s rule: rev_induct) simp_all

lemma strip_no_space: "s = [] \<or> (\<not> isspace (hd s) \<and> \<not> isspace (last s)) \<Longrightarrow> strip s = s"
proof (cases "s = []")
  case True
  then show ?thesis by (simp add: strip_def)
next
  case False
  assume "s = [] \<or> (\<not> isspace (hd s) \<and> \<not> isspace (last s))"
  with False have h: "\<not> isspace (hd s)" and l: "\<not> isspace (last s)" by auto
  from h False have 1: "dropWhile isspace s = s" by (cases s) simp_all
  from False l have 2: "dropWhile isspace (rev s) = rev s" by (rule dropWhile_rev_last)
  show ?thesis by (simp add: strip_def 1 2)
qed

lemma strip_py_str: "strip (py_str q) = py_str q"
proof -
  have ne: "py_str q \<noteq> []" by (simp add: py_str_def digits_nonempty)
  then have "hd (py_str q) \<in> insert 45 {48..57}" "last (py_str q) \<in> insert 45 {48..57}"
    using py_str_chars [of q] hd_in_set last_in_set by blast+
  then have "\<not> isspace (hd (py_str q))" "\<not> isspace (last (py_str q))"
    by (auto simp: isspace_def)
  then show ?thesis by (simp add: strip_no_space)
qed

section \<open>Parsing a rendered Item Description\<close>

lemma parse_render_strip:
  assumes n1: "\<not> py_in name_prefix name" and n2: "\<not> py_in link_delim name"
    and n3: "\<not> py_in link_prefix name" and n4: "\<not> py_in quantity_prefix name"
    and l2: "\<not> py_in link_prefix link"
    and l3: "\<not> py_in quantity_delim link" and l4: "\<not> py_in quantity_prefix link"
    and few: "decimal_digits q \<le> 4300"
  shows "parse_product_item (render_item name link q) = Inr (strip name, strip link, q)"
proof -
  define qs where "qs = py_str q"
  define after_link where "after_link = link @ asc '', '' @ quantity_prefix @ qs"
  define after_name where "after_name = name @ asc '', '' @ link_prefix @ after_link"
  define item where "item = render_item name link q"
  define found where "found = partition_first name_prefix after_link"
  define cut where "cut = (case found of None \<Rightarrow> after_link | Some (a, b) \<Rightarrow> a)"
  note hyps = n1 n2 n3 n4 l2 l3 l4
  note lit = hyps [unfolded label_chars]
  have qchars: "80 \<notin> set qs" "44 \<notin> set qs"
    using py_str_chars [of q] by (auto simp: qs_def)
  have q2: "\<not> py_in link_prefix qs" and q3: "\<not> py_in quantity_prefix qs"
    using qchars by (simp_all add: label_chars py_in_needs_head)
  note qlit = q2 [unfolded label_chars] q3 [unfolded label_chars]
  have ne: "name_prefix \<noteq> []" "link_prefix \<noteq> []" "quantity_prefix \<noteq> []"
    "link_delim \<noteq> []" "quantity_delim \<noteq> []"
    by (simp_all add: label_chars)
  \<comment> \<open>the name: the text after the name label, up to the next name label if the link
      has one, and of that the text before the first delimiter\<close>
  have item_name: "item = [] @ name_prefix @ after_name"
    by (simp add: item_def render_item_def after_name_def after_link_def qs_def)
  have "\<not> py_in name_prefix ([] @ butlast name_prefix)"
    by (simp add: label_chars)
  then have first: "py_split item name_prefix = [] # py_split after_name name_prefix"
    unfolding item_name by (rule py_split_found [OF ne(1)])
  have found_lit: "partition_first name_prefix after_link = found"
    by (simp add: found_def)
  have over_label: "partition_first name_prefix (32 # link_prefix @ after_link)
      = map_option (\<lambda>(a, b). (32 # link_prefix @ a, b)) found"
  proof (cases found)
    case None
    with found_lit [unfolded label_chars] show ?thesis by (simp add: label_chars)
  next
    case (Some ab)
    with found_lit [unfolded label_chars] show ?thesis by (cases ab) (simp add: label_chars)
  qed
  have "44 \<notin> set name_prefix" by (simp add: label_chars)
  from partition_first_skip [OF n1 this, of "32 # link_prefix @ after_link"] over_label
  have over_name: "partition_first name_prefix after_name
      = map_option (\<lambda>(a, b). (name @ asc '', '' @ link_prefix @ a, b)) found"
    by (cases found) (auto simp: after_name_def asc_def)
  have "\<exists>more. py_split after_name name_prefix = (name @ asc '', '' @ link_prefix @ cut) # more"
  proof (cases found)
    case None
    with over_name have "partition_first name_prefix after_name = None"
      by simp
    then have "py_split after_name name_prefix = [after_name]"
      by (subst py_split.simps) (simp add: ne)
    with None show ?thesis by (simp add: cut_def after_name_def)
  next
    case (Some ab)
    obtain a b where ab: "ab = (a, b)" by (cases ab)
    with Some over_name
    have "partition_first name_prefix after_name = Some (name @ asc '', '' @ link_prefix @ a, b)"
      by simp
    then have "py_split after_name name_prefix
        = (name @ asc '', '' @ link_prefix @ a) # py_split b name_prefix"
      by (subst py_split.simps) (simp add: ne)
    with Some ab show ?thesis by (simp add: cut_def)
  qed
  with first have A: "index1 (py_split item name_prefix) = Inr (name @ asc '', '' @ link_prefix @ cut)"
    by (auto simp: index1_def)
  have with_delim: "name @ asc '', '' @ link_prefix @ cut
      = name @ link_delim @ (asc '' / '' @ [21830, 21697, 32178, 22336] @ asc '': '' @ cut)"
    by (simp add: label_chars asc_def)
  have "\<not> py_in link_delim (name @ butlast link_delim)"
    using lit by (simp add: label_chars py_in_separator)
  then have "py_split (name @ asc '', '' @ link_prefix @ cut) link_delim
      = name # py_split (asc '' / '' @ [21830, 21697, 32178, 22336] @ asc '': '' @ cut) link_delim"
    unfolding with_delim by (rule py_split_found [OF ne(4)])
  then have B: "index0 (py_split (name @ asc '', '' @ link_prefix @ cut) link_delim) = Inr name"
    by (simp add: index0_def)
  \<comment> \<open>the link\<close>
  have item_link: "item = (name_prefix @ name @ asc '', '') @ link_prefix @ after_link"
    by (simp add: item_def render_item_def after_link_def qs_def)
  have "\<not> py_in link_prefix ((name_prefix @ name @ asc '', '') @ butlast link_prefix)"
    using lit by (simp add: label_chars asc_def py_in_separator)
  then have "py_split item link_prefix = (name_prefix @ name @ asc '', '') # py_split after_link link_prefix"
    unfolding item_link by (rule py_split_found [OF ne(2)])
  moreover have "\<not> py_in link_prefix after_link"
    using lit qlit by (simp add: after_link_def label_chars asc_def py_in_separator)
  ultimately have C: "index1 (py_split item link_prefix) = Inr after_link"
    by (simp add: py_split_none ne index1_def)
  have after_link_delim:
    "after_link = link @ quantity_delim @ (asc '' / '' @ [25152, 38656, 25976, 37327] @ asc '': '' @ qs)"
    by (simp add: after_link_def label_chars asc_def)
  have "\<not> py_in quantity_delim (link @ butlast quantity_delim)"
    using lit by (simp add: label_chars py_in_separator)
  then have "py_split after_link quantity_delim
      = link # py_split (asc '' / '' @ [25152, 38656, 25976, 37327] @ asc '': '' @ qs) quantity_delim"
    unfolding after_link_delim by (rule py_split_found [OF ne(5)])
  then have D: "index0 (py_split after_link quantity_delim) = Inr link"
    by (simp add: index0_def)
  \<comment> \<open>the quantity\<close>
  have item_quantity:
    "item = (name_prefix @ name @ asc '', '' @ link_prefix @ link @ asc '', '') @ quantity_prefix @ qs"
    by (simp add: item_def render_item_def qs_def)
  have "\<not> py_in quantity_prefix
      ((name_prefix @ name @ asc '', '' @ link_prefix @ link @ asc '', '') @ butlast quantity_prefix)"
    using lit by (simp add: label_chars asc_def py_in_separator)
  then have "py_split item quantity_prefix
      = (name_prefix @ name @ asc '', '' @ link_prefix @ link @ asc '', '') # py_split qs quantity_prefix"
    unfolding item_quantity by (rule py_split_found [OF ne(3)])
  then have E: "index1 (py_split item quantity_prefix) = Inr qs"
    by (simp add: py_split_none ne q3 index1_def)
  have F: "py_int (strip qs) = Inr q"
    by (simp add: qs_def strip_py_str py_int_py_str few)
  show ?thesis
    unfolding parse_product_item_def item_def [symmetric]
    by (simp add: bindE_def A B C D E F)
qed

lemma parse_render_item:
  assumes "strip name = name" and "strip link = link"
    and "\<not> py_in name_prefix name" and "\<not> py_in link_delim name"
    and "\<not> py_in link_prefix name" and "\<not> py_in quantity_prefix name"
    and "\<not> py_in link_prefix link"
    and "\<not> py_in quantity_delim link" and "\<not> py_in quantity_prefix link"
    and "decimal_digits q \<le> 4300"
  shows "parse_product_item (render_item name link q) = Inr (name, link, q)"
  using parse_render_strip [OF assms(3-10)] assms(1,2) by simp

section \<open>Facts about the batch processor\<close>

subsection \<open>sorting\<close>

lemma date_le_total: "date_le a b \<or> date_le b a"
  by (cases a; cases b) auto

lemma date_le_trans: "date_le a b \<Longrightarrow> date_le b c \<Longrightarrow> date_le a c"
  by (cases a; cases b; cases c) auto

lemma set_insert_by_date: "set (insert_by_date e xs) = insert e (set xs)"
  by (induction xs) auto

lemma mset_insert_by_date: "mset (insert_by_date e xs) = add_mset e (mset xs)"
  by (induction xs) auto

lemma mset_sort_values_by_date: "mset (sort_values_by_date es) = mset es"
  unfolding sort_values_by_date_def by (induction es) (auto simp: mset_insert_by_date)

lemma sorted_insert_by_date:
  "sorted_wrt (\<lambda>x y. date_le (l_date x) (l_date y)) xs \<Longrightarrow>
   sorted_wrt (\<lambda>x y. date_le (l_date x) (l_date y)) (insert_by_date e xs)"
proof (induction xs)
  case Nil
  then show ?case by simp
next
  case (Cons x xs)
  show ?case
  proof (cases "date_le (l_date e) (l_date x)")
    case True
    with Cons.prems show ?thesis by (auto intro: date_le_trans)
  next
    case False
    then have "date_le (l_date x) (l_date e)" using date_le_total by blast
    with Cons False show ?thesis by (auto simp: set_insert_by_date)
  qed
qed

lemma sorted_sort_values_by_date:
  "sorted_wrt (\<lambda>x y. date_le (l_date x) (l_date y)) (sort_values_by_date es)"
  unfolding sort_values_by_date_def by (induction es) (auto intro: sorted_insert_by_date)

subsection \<open>reports\<close>

lemma process_csv_Inr:
  "process_csv w data = Inr out \<Longrightarrow>
   \<exists>st. process_rows w empty_tables data = Inr st \<and> build_reports st = Inr out"
  by (auto simp: process_csv_def bindE_def split: sum.splits)

lemma build_reports_ledgers:
  assumes "build_reports st = Inr out"
  shows "infinity_bookkeeping out
           = sort_values_by_date (link_contains (asc ''corvusbelli'') (bookkeeping_data st))"
    and "gw_bookkeeping out
           = sort_values_by_date (link_contains (asc ''warhammer'') (bookkeeping_data st))"
    and "incorrect_report out
           = (if incorrect_entries st = [] then None else Some (incorrect_entries st))"
  using assms by (auto simp: build_reports_def bindE_def split: sum.splits)

subsection \<open>one item\<close>

lemma try_block_accepts:
  "try_block w n item = (Inr (p, name, link, q), n') \<Longrightarrow>
   parse_product_item item = Inr (name, link, q) \<and> startswith link (asc ''http'') \<and> 0 < q
   \<and> name \<noteq> [] \<and>
   ((py_in (asc ''corvusbelli.com'') link \<and> (\<exists>r e. p = [S r, S name, S link, S e, I q]))
    \<or> (\<not> py_in (asc ''corvusbelli.com'') link \<and> p = [S name, I q, S link]))"
  by (auto simp: try_block_def split: sum.splits prod.splits if_splits)

lemma parse_fails_on_quantity:
  "index1 (py_split item quantity_prefix) = Inr t \<Longrightarrow> py_int (strip t) = Inl e \<Longrightarrow>
   \<exists>e'. parse_product_item item = Inl e'"
  by (auto simp: parse_product_item_def bindE_def split: sum.splits)

lemma try_block_rejects:
  assumes "(\<exists>e. parse_product_item item = Inl e)
     \<or> (\<exists>name link q. parse_product_item item = Inr (name, link, q)
           \<and> (q \<le> 0 \<or> \<not> startswith link (asc ''http'')))"
  shows "\<exists>e. try_block w n item = (Inl e, n)"
  using assms by (auto simp: try_block_def split: sum.splits prod.splits)

lemma process_item_rejects:
  assumes "py_in name_label item" and "try_block w (fetches st) item = (Inl e, n)"
  shows "process_item w row st item =
     st\<lparr>incorrect_entries := incorrect_entries st @
          [\<lparr>r_customer = customer row, r_phone = format_phone_number (phone row),
            r_date = submission_date row, r_invalid_entry = item\<rparr>],
        fetches := n\<rparr>"
  using assms by (simp add: process_item_def)

lemma process_item_aligned:
  "list_all2 aligned (products st) (bookkeeping_data st) \<Longrightarrow>
   list_all2 aligned (products (process_item w row st item))
     (bookkeeping_data (process_item w row st item))"
  by (auto simp: process_item_def aligned_def split: sum.splits prod.splits
      dest!: try_block_accepts intro!: list_all2_appendI)

lemma process_item_count:
  "length (incorrect_entries (process_item w row st item))
     + length (bookkeeping_data (process_item w row st item))
   = length (incorrect_entries st) + length (bookkeeping_data st)
     + (if py_in name_label item then 1 else 0)"
  by (auto simp: process_item_def split: sum.splits prod.splits)

lemma foldl_process_item_aligned:
  "list_all2 aligned (products st) (bookkeeping_data st) \<Longrightarrow>
   list_all2 aligned (products (foldl (process_item w row) st items))
     (bookkeeping_data (foldl (process_item w row) st items))"
  by (induction items arbitrary: st) (auto intro: process_item_aligned)

lemma foldl_process_item_count:
  "length (incorrect_entries (foldl (process_item w row) st items))
     + length (bookkeeping_data (foldl (process_item w row) st items))
   = length (incorrect_entries st) + length (bookkeeping_data st)
     + length (filter (py_in name_label) items)"
proof (induction items arbitrary: st)
  case Nil
  show ?case by simp
next
  case (Cons item items)
  show ?case
    using Cons.IH [of "process_item w row st item"] process_item_count [of w row st item]
    by simp
qed

lemma process_rows_aligned:
  "process_rows w st data = Inr st' \<Longrightarrow> list_all2 aligned (products st) (bookkeeping_data st) \<Longrightarrow>
   list_all2 aligned (products st') (bookkeeping_data st')"
proof (induction data arbitrary: st)
  case Nil
  then show ?case by simp
next
  case (Cons row rows)
  then show ?case
    by (auto simp: process_row_def split: sum.splits cell.splits
        intro: foldl_process_item_aligned)
qed

lemma process_rows_count:
  "process_rows w st data = Inr st' \<Longrightarrow>
   length (incorrect_entries st') + length (bookkeeping_data st')
   = length (incorrect_entries st) + length (bookkeeping_data st) + length (candidate_items data)"
proof (induction data arbitrary: st)
  case Nil
  then show ?case by (simp add: candidate_items_def)
next
  case (Cons row rows)
  from Cons.prems obtain blob where blob: "item_blob row = Val blob"
    and rest: "process_rows w (foldl (process_item w row) st (py_split blob [10])) rows = Inr st'"
    by (auto simp: process_row_def split: sum.splits cell.splits)
  from Cons.IH [OF rest] foldl_process_item_count [of w row st "py_split blob [10]"] blob
  show ?case by (simp add: candidate_items_def)
qed

lemma select_rows_aligned:
  "list_all2 aligned ps es \<Longrightarrow> select_rows m ps = Inr (filter (passes m) ps)"
  by (induction rule: list_all2_induct)
     (auto simp: aligned_def passes_def index2_def marker_in_def bindE_def)

lemma aligned_index2: "aligned p e \<Longrightarrow> index2 p = Inr (S (l_link e))"
  by (auto simp: aligned_def index2_def)

lemma aligned_length: "aligned p e \<Longrightarrow>
  (length p = 5 \<and> py_in (asc ''corvusbelli.com'') (l_link e))
  \<or> (length p = 3 \<and> \<not> py_in (asc ''corvusbelli.com'') (l_link e))"
  by (auto simp: aligned_def)

lemma aligned_passes: "aligned p e \<Longrightarrow> passes m p = py_in m (l_link e)"
  by (auto simp: aligned_def passes_def index2_def marker_in_def bindE_def)

lemma list_all2_partner: "list_all2 R xs ys \<Longrightarrow> x \<in> set xs \<Longrightarrow> \<exists>y. R x y"
  by (induction rule: list_all2_induct) auto

lemma fold_max_ge: "(a::nat) \<le> fold max xs a \<and> (\<forall>x\<in>set xs. x \<le> fold max xs a)"
proof (induction xs arbitrary: a)
  case Nil
  show ?case by simp
next
  case (Cons x xs)
  from Cons [of "max x a"] show ?case by auto
qed

lemma fold_max_const: "xs \<noteq> [] \<Longrightarrow> \<forall>x\<in>set xs. x = k \<Longrightarrow> fold max xs (0::nat) = k"
proof -
  have "\<forall>x\<in>set xs. x = k \<Longrightarrow> fold max xs a = (if xs = [] then a else max a k)" for a
    by (induction xs arbitrary: a) (auto simp: max.commute max.left_commute)
  then show "xs \<noteq> [] \<Longrightarrow> \<forall>x\<in>set xs. x = k \<Longrightarrow> fold max xs (0::nat) = k"
    by simp
qed

lemma data_frame_exact: "\<forall>p\<in>set rows. length p = k \<Longrightarrow> data_frame k rows = Inr rows"
proof (cases "rows = []")
  case True
  then show ?thesis by (simp add: data_frame_def)
next
  case False
  assume all: "\<forall>p\<in>set rows. length p = k"
  with False have "fold max (map length rows) 0 = k"
    by (intro fold_max_const) auto
  with all False show ?thesis
    by (simp add: data_frame_def map_idI)
qed

lemma data_frame_no_longer:
  assumes "data_frame k rows = Inr df" and "\<forall>p\<in>set rows. k \<le> length p"
  shows "df = rows"
proof (cases "rows = []")
  case True
  with assms show ?thesis by (simp add: data_frame_def)
next
  case False
  with assms(1) have m: "fold max (map length rows) 0 = k" and df: "df = map (\<lambda>p. p @ replicate (k - length p) PNone) rows"
    by (auto simp: data_frame_def split: if_splits)
  from fold_max_ge [of 0 "map length rows"] m have "\<forall>p\<in>set rows. length p \<le> k"
    by auto
  with assms(2) have "\<forall>p\<in>set rows. length p = k" by fastforce
  with df show ?thesis by (simp add: map_idI)
qed

lemma build_reports_suppliers:
  assumes al: "list_all2 aligned (products st) (bookkeeping_data st)"
    and out: "build_reports st = Inr out"
  shows "corvus_belli out = filter (passes (asc ''corvusbelli.com'')) (products st)
       \<and> games_workshop out = filter (passes (asc ''warhammer'')) (products st)"
proof -
  have len: "\<forall>p\<in>set (products st). 3 \<le> length p"
    using list_all2_partner [OF al] aligned_length by fastforce
  from out obtain cdf gdf where
    c: "data_frame 5 (filter (passes (asc ''corvusbelli.com'')) (products st)) = Inr cdf"
    and g: "data_frame 3 (filter (passes (asc ''warhammer'')) (products st)) = Inr gdf"
    and o: "corvus_belli out = cdf" "games_workshop out = gdf"
    by (auto simp: build_reports_def bindE_def select_rows_aligned [OF al] split: sum.splits)
  have "\<forall>p\<in>set (filter (passes (asc ''corvusbelli.com'')) (products st)). 5 \<le> length p"
  proof
    fix p assume "p \<in> set (filter (passes (asc ''corvusbelli.com'')) (products st))"
    then have p: "p \<in> set (products st)" and ps: "passes (asc ''corvusbelli.com'') p" by auto
    from list_all2_partner [OF al p] ps show "5 \<le> length p"
      using aligned_passes aligned_length by fastforce
  qed
  with c have "cdf = filter (passes (asc ''corvusbelli.com'')) (products st)"
    by (rule data_frame_no_longer)
  moreover from g len have "gdf = filter (passes (asc ''warhammer'')) (products st)"
    by (intro data_frame_no_longer) auto
  ultimately show ?thesis using o by simp
qed

section \<open>Facts about rendered items and the partition of the candidates\<close>

lemma render_candidate: "py_in name_label (render_item name link q)"
  by (simp add: render_item_def label_chars name_label_chars)

lemma render_single_line:
  assumes "10 \<notin> set name" and "10 \<notin> set link"
  shows "py_split (render_item name link q) [10] = [render_item name link q]"
proof -
  have "10 \<notin> set (render_item name link q)"
    using assms py_str_chars [of q] by (auto simp: render_item_def label_chars asc_def)
  then have "\<not> py_in [10] (render_item name link q)"
    by (rule py_in_needs_head)
  then show ?thesis by (simp add: py_split_none)
qed

lemma zip_snoc: "length xs = length ys \<Longrightarrow> zip (xs @ [x]) (ys @ [y]) = zip xs ys @ [(x, y)]"
  by simp

lemma partitioned_step:
  assumes "partitioned st items"
  shows "partitioned (process_item w row st item)
           (items @ (if py_in name_label item then [item] else []))"
proof (cases "py_in name_label item")
  case False
  with assms show ?thesis by (simp add: process_item_def)
next
  case True
  from assms obtain flags where len: "length flags = length items"
    and rej: "map r_invalid_entry (incorrect_entries st) = rejected_of items flags"
    and acc: "map (\<lambda>e. Inr (identity e)) (bookkeeping_data st)
            = map parse_product_item (accepted_of items flags)"
    by (auto simp: partitioned_def)
  obtain res n where tb: "try_block w (fetches st) item = (res, n)"
    by (cases "try_block w (fetches st) item")
  show ?thesis
  proof (cases res)
    case (Inl e)
    with tb True len rej acc show ?thesis
      unfolding partitioned_def
      by (intro exI [of _ "flags @ [False]"])
         (simp add: process_item_def rejected_of_def accepted_of_def)
  next
    case (Inr r)
    obtain p name link q where r: "r = (p, name, link, q)"
      by (cases r)
    from tb Inr r have "parse_product_item item = Inr (name, link, q)"
      using try_block_accepts by blast
    with tb Inr r True len rej acc show ?thesis
      unfolding partitioned_def
      by (intro exI [of _ "flags @ [True]"])
         (simp add: process_item_def rejected_of_def accepted_of_def identity_def)
  qed
qed

lemma partitioned_foldl:
  "partitioned st items \<Longrightarrow>
   partitioned (foldl (process_item w row) st lines) (items @ filter (py_in name_label) lines)"
proof (induction lines arbitrary: st items)
  case Nil
  then show ?case by simp
next
  case (Cons l ls)
  from Cons.IH [OF partitioned_step [OF Cons.prems, of w row l]]
  show ?case by (cases "py_in name_label l") simp_all
qed

lemma partitioned_rows:
  "process_rows w st data = Inr st' \<Longrightarrow> partitioned st items \<Longrightarrow>
   partitioned st' (items @ candidate_items data)"
proof (induction data arbitrary: st items)
  case Nil
  then show ?case by (simp add: candidate_items_def)
next
  case (Cons row rows)
  from Cons.prems(1) obtain blob where blob: "item_blob row = Val blob"
    and rest: "process_rows w (foldl (process_item w row) st (py_split blob [10])) rows = Inr st'"
    by (auto simp: process_row_def split: sum.splits cell.splits)
  from Cons.IH [OF rest partitioned_foldl [OF Cons.prems(2)]] blob
  show ?case by (simp add: candidate_items_def)
qed

lemma partitioned_run:
  "process_rows w empty_tables data = Inr st \<Longrightarrow> partitioned st (candidate_items data)"
  using partitioned_rows [of w empty_tables data st "[]"]
  by (simp add: partitioned_def empty_tables_def rejected_of_def accepted_of_def)

section \<open>The concrete inputs evaluated\<close>

lemmas input_defs = figure_a_def warhammer_link_def corvus_link_def other_link_def garbage_link_def

lemma figure_a_facts:
  "figure_a \<noteq> []" "10 \<notin> set figure_a" "strip figure_a = figure_a"
  "\<not> py_in name_prefix figure_a" "\<not> py_in link_delim figure_a"
  "\<not> py_in link_prefix figure_a" "\<not> py_in quantity_prefix figure_a"
  by (simp_all add: figure_a_def asc_def label_chars strip_def isspace_def)

lemma warhammer_link_facts:
  "warhammer_link \<noteq> []" "10 \<notin> set warhammer_link" "strip warhammer_link = warhammer_link"
  "\<not> py_in name_prefix warhammer_link" "\<not> py_in link_prefix warhammer_link"
  "\<not> py_in quantity_delim warhammer_link" "\<not> py_in quantity_prefix warhammer_link"
  "startswith warhammer_link (asc ''http'')"
  "\<not> py_in (asc ''corvusbelli.com'') warhammer_link" "\<not> py_in (asc ''corvusbelli'') warhammer_link"
  "py_in (asc ''warhammer'') warhammer_link"
  by (simp_all add: warhammer_link_def asc_def label_chars strip_def isspace_def startswith_def)

lemma corvus_link_facts:
  "corvus_link \<noteq> []" "10 \<notin> set corvus_link" "strip corvus_link = corvus_link"
  "\<not> py_in name_prefix corvus_link" "\<not> py_in link_prefix corvus_link"
  "\<not> py_in quantity_delim corvus_link" "\<not> py_in quantity_prefix corvus_link"
  "startswith corvus_link (asc ''http'')"
  "py_in (asc ''corvusbelli.com'') corvus_link" "py_in (asc ''corvusbelli'') corvus_link"
  "\<not> py_in (asc ''warhammer'') corvus_link"
  by (simp_all add: corvus_link_def asc_def label_chars strip_def isspace_def startswith_def)

lemma other_link_facts:
  "other_link \<noteq> []" "10 \<notin> set other_link" "strip other_link = other_link"
  "\<not> py_in name_prefix other_link" "\<not> py_in link_prefix other_link"
  "\<not> py_in quantity_delim other_link" "\<not> py_in quantity_prefix other_link"
  "startswith other_link (asc ''http'')"
  "\<not> py_in (asc ''corvusbelli.com'') other_link" "\<not> py_in (asc ''corvusbelli'') other_link"
  "\<not> py_in (asc ''warhammer'') other_link"
  by (simp_all add: other_link_def asc_def label_chars strip_def isspace_def startswith_def)

lemma both_link_facts:
  "both_link \<noteq> []" "10 \<notin> set both_link" "strip both_link = both_link"
  "\<not> py_in link_prefix both_link"
  "\<not> py_in quantity_delim both_link" "\<not> py_in quantity_prefix both_link"
  "startswith both_link (asc ''http'')"
  "py_in (asc ''corvusbelli.com'') both_link" "py_in (asc ''corvusbelli'') both_link"
  "py_in (asc ''warhammer'') both_link"
  by (simp_all add: both_link_def asc_def label_chars strip_def isspace_def startswith_def)

lemma label_link_facts:
  "strip label_link = label_link" "py_in name_prefix label_link"
  "\<not> py_in link_prefix label_link"
  "\<not> py_in quantity_delim label_link" "\<not> py_in quantity_prefix label_link"
  by (simp_all add: label_link_def asc_def label_chars strip_def isspace_def)

lemma small_quantities: "\<bar>1::int\<bar> < 10" "\<bar>4::int\<bar> < 10"
  by simp_all

lemma parse_figure_a:
  assumes "\<bar>q\<bar> < 10"
  shows "parse_product_item (render_item figure_a warhammer_link q) = Inr (figure_a, warhammer_link, q)"
    and "parse_product_item (render_item figure_a corvus_link q) = Inr (figure_a, corvus_link, q)"
    and "parse_product_item (render_item figure_a other_link q) = Inr (figure_a, other_link, q)"
    and "parse_product_item (render_item figure_a both_link q) = Inr (figure_a, both_link, q)"
    and "parse_product_item (render_item figure_a label_link q) = Inr (figure_a, label_link, q)"
  using assms
  by (simp_all add: parse_render_item figure_a_facts warhammer_link_facts corvus_link_facts
      other_link_facts both_link_facts label_link_facts few_digits)

lemma fetch_good_run:
  "fst (fetch_product_details good_run) = (Some (asc ''REF123''), Some (asc ''45''))"
  by (simp add: fetch_product_details_def with_body_def good_run_def read_field_def
      strip_def isspace_def asc_def)

lemma fetch_sentinel_run:
  "fst (fetch_product_details sentinel_run) = (Some reference_not_found, Some (asc ''45''))"
  by (simp add: fetch_product_details_def with_body_def sentinel_run_def good_run_def
      read_field_def strip_def isspace_def asc_def)

lemma process_row_render:
  assumes "10 \<notin> set name" and "10 \<notin> set link"
  shows "process_row w st \<lparr>customer = c, phone = p, submission_date = d,
                          item_blob = Val (render_item name link q)\<rparr>
       = Inr (process_item w \<lparr>customer = c, phone = p, submission_date = d,
                          item_blob = Val (render_item name link q)\<rparr> st (render_item name link q))"
  using assms by (simp add: process_row_def render_single_line)

lemma run_mixed_orders:
  "process_rows (\<lambda>n u. good_run) empty_tables mixed_orders = Inr mixed_tables"
  by (simp add: mixed_orders_def mixed_tables_def entry_of_def process_row_render figure_a_facts
      warhammer_link_facts corvus_link_facts other_link_facts process_item_def render_candidate
      try_block_def parse_figure_a fetch_good_run falsy_def empty_tables_def order_of_def
      format_phone_number_def asc_def [of "''REF123''"] asc_def [of "''45''"])

lemma select_mixed:
  "select_rows (asc ''corvusbelli.com'') (products mixed_tables)
     = Inr [[S (asc ''REF123''), S figure_a, S corvus_link, S (asc ''45''), I 1]]"
  "select_rows (asc ''warhammer'') (products mixed_tables)
     = Inr [[S figure_a, I 2, S warhammer_link], [S figure_a, I 3, S warhammer_link]]"
  by (simp_all add: mixed_tables_def index2_def marker_in_def bindE_def
      warhammer_link_facts corvus_link_facts other_link_facts)

lemma days_le: "day_3 \<le> day_5" "\<not> day_5 \<le> day_3"
  by (simp_all add: day_3_def day_5_def asc_def)

lemma reports_mixed_orders: "build_reports mixed_tables = Inr mixed_reports"
  unfolding build_reports_def
  by (simp add: select_mixed bindE_def data_frame_def)
     (simp add: mixed_tables_def mixed_reports_def link_contains_def sort_values_by_date_def
      entry_of_def warhammer_link_facts corvus_link_facts other_link_facts days_le)

lemma csv_mixed_orders: "process_csv (\<lambda>n u. good_run) mixed_orders = Inr mixed_reports"
  by (simp add: process_csv_def bindE_def run_mixed_orders reports_mixed_orders)


lemma garbage_link_facts:
  "garbage_link \<noteq> []" "10 \<notin> set garbage_link" "strip garbage_link = garbage_link"
  "\<not> py_in name_prefix garbage_link" "\<not> py_in link_prefix garbage_link"
  "\<not> py_in quantity_delim garbage_link" "\<not> py_in quantity_prefix garbage_link"
  "startswith garbage_link (asc ''http'')"
  "\<not> py_in (asc ''corvusbelli.com'') garbage_link"
  by (simp_all add: garbage_link_def asc_def label_chars strip_def isspace_def startswith_def)

lemma www_link_facts:
  "www_link \<noteq> []" "10 \<notin> set www_link" "strip www_link = www_link"
  "\<not> py_in name_prefix www_link" "\<not> py_in link_prefix www_link"
  "\<not> py_in quantity_delim www_link" "\<not> py_in quantity_prefix www_link"
  "\<not> startswith www_link (asc ''http'')"
  by (simp_all add: www_link_def asc_def label_chars strip_def isspace_def startswith_def)

lemma parse_other_links:
  assumes "\<bar>q\<bar> < 10"
  shows "parse_product_item (render_item figure_a garbage_link q) = Inr (figure_a, garbage_link, q)"
    and "parse_product_item (render_item figure_a www_link q) = Inr (figure_a, www_link, q)"
  using assms
  by (simp_all add: parse_render_item figure_a_facts garbage_link_facts www_link_facts few_digits)

lemma process_rows_completes:
  "\<forall>row\<in>set data. item_blob row \<noteq> NaN \<Longrightarrow> \<exists>st'. process_rows w st data = Inr st'"
proof (induction data arbitrary: st)
  case Nil
  show ?case by simp
next
  case (Cons row rows)
  then show ?case
    by (cases "item_blob row") (auto simp: process_row_def)
qed

lemma quantity_field:
  assumes "\<not> py_in quantity_prefix name" and "\<not> py_in quantity_prefix link"
    and "\<not> py_in quantity_prefix t"
  shows "index1 (py_split (name_prefix @ name @ asc '', '' @ link_prefix @ link @ asc '', ''
                            @ quantity_prefix @ t) quantity_prefix) = Inr t"
proof -
  note lit = assms [unfolded label_chars]
  have ne: "quantity_prefix \<noteq> []" by (simp add: label_chars)
  have split: "name_prefix @ name @ asc '', '' @ link_prefix @ link @ asc '', '' @ quantity_prefix @ t
      = (name_prefix @ name @ asc '', '' @ link_prefix @ link @ asc '', '') @ quantity_prefix @ t"
    by simp
  have "\<not> py_in quantity_prefix
      ((name_prefix @ name @ asc '', '' @ link_prefix @ link @ asc '', '') @ butlast quantity_prefix)"
    using lit by (simp add: label_chars asc_def py_in_separator)
  then have "py_split ((name_prefix @ name @ asc '', '' @ link_prefix @ link @ asc '', '')
                 @ quantity_prefix @ t) quantity_prefix
      = (name_prefix @ name @ asc '', '' @ link_prefix @ link @ asc '', '') # py_split t quantity_prefix"
    by (rule py_split_found [OF ne])
  then show ?thesis
    unfolding split by (simp add: py_split_none ne assms(3) index1_def)
qed

lemma two_item_quantity:
  "index1 (py_split two_item quantity_prefix) = Inr (asc ''two'')"
  "py_int (strip (asc ''two'')) = Inl invalid_literal"
proof -
  have "\<not> py_in quantity_prefix (asc ''two'')"
    by (simp add: label_chars asc_def)
  then show "index1 (py_split two_item quantity_prefix) = Inr (asc ''two'')"
    unfolding two_item_def by (intro quantity_field) (simp_all add: figure_a_facts warhammer_link_facts)
  show "py_int (strip (asc ''two'')) = Inl invalid_literal"
    by (simp add: asc_def strip_def isspace_def py_int_def long_from_string_def
        transform_decimal_and_space_def c_isspace_def digit_or_underscore_def)
qed

lemma two_item_candidate: "py_in name_label two_item"
  by (simp add: two_item_def label_chars name_label_chars)

lemma padded_name_facts:
  "strip padded_name = figure_a" "padded_name \<noteq> figure_a"
  "\<not> py_in name_prefix padded_name" "\<not> py_in link_delim padded_name"
  "\<not> py_in link_prefix padded_name" "\<not> py_in quantity_prefix padded_name"
  by (simp_all add: padded_name_def figure_a_def asc_def label_chars strip_def isspace_def)

lemma parse_padded_name:
  "parse_product_item (render_item padded_name warhammer_link 2) = Inr (figure_a, warhammer_link, 2)"
  using parse_render_strip [of padded_name warhammer_link 2]
  by (simp add: padded_name_facts warhammer_link_facts few_digits)

lemma parse_delimiter_name:
  "parse_product_item (render_item delimiter_name warhammer_link 2) = Inr (asc ''A'', warhammer_link, 2)"
  by (simp add: delimiter_name_def warhammer_link_def render_item_def label_chars asc_def
      py_str_def digits.simps parse_product_item_def py_split.simps bindE_def index0_def
      index1_def strip_def isspace_def py_int_def long_from_string_def
      transform_decimal_and_space_def c_isspace_def digit_or_underscore_def digits_value_def)

lemma run_lost_order:
  "process_rows (\<lambda>n u. good_run) empty_tables lost_order =
     Inr \<lparr>products = [[S figure_a, I 4, S other_link]],
          bookkeeping_data = [entry_of day_3 other_link 4],
          incorrect_entries = [], fetches = 0\<rparr>"
  by (simp add: lost_order_def entry_of_def process_row_render figure_a_facts other_link_facts
      process_item_def render_candidate try_block_def parse_figure_a empty_tables_def
      order_of_def format_phone_number_def)

section \<open>The page fetcher: lifetime of the browser\<close>

text \<open>
  The program leaves a browser open exactly when it launched one and a later call raised:
  \<open>browser.close()\<close> stands at the end of the \<open>with\<close> block, not in a \<open>finally\<close>.
\<close>

lemma browser_left_open_iff:
  "browser_open_after False (snd (fetch_product_details r))
     = (playwright_starts r \<and> launch_returns r \<and> fst (fetch_product_details r) = (None, None))"
  by (auto simp: fetch_product_details_def with_body_def split: outcome.splits prod.splits)


section \<open>The bookkeeping ledgers are sorted\<close>

text \<open>
  C7. When a run completes, each of the two bookkeeping ledgers is in non-decreasing order
  of date: any earlier row's date is at most any later row's, and in particular this holds
  for every pair of consecutive rows. Dates compare as the column's values do (strings by
  code point); rows without a date come last, as \<open>sort_values\<close> puts them.
\<close>

theorem ledgers_sorted_by_date:
  "process_csv w data = Inr out \<Longrightarrow>
   sorted_wrt (\<lambda>x y. date_le (l_date x) (l_date y)) (infinity_bookkeeping out)
   \<and> sorted_wrt (\<lambda>x y. date_le (l_date x) (l_date y)) (gw_bookkeeping out)
   \<and> (\<forall>i. Suc i < length (infinity_bookkeeping out) \<longrightarrow>
          date_le (l_date (infinity_bookkeeping out ! i)) (l_date (infinity_bookkeeping out ! Suc i)))
   \<and> (\<forall>i. Suc i < length (gw_bookkeeping out) \<longrightarrow>
          date_le (l_date (gw_bookkeeping out ! i)) (l_date (gw_bookkeeping out ! Suc i)))"
proof -
  assume "process_csv w data = Inr out"
  then obtain st where "build_reports st = Inr out"
    using process_csv_Inr by blast
  then have a: "sorted_wrt (\<lambda>x y. date_le (l_date x) (l_date y)) (infinity_bookkeeping out)"
    and b: "sorted_wrt (\<lambda>x y. date_le (l_date x) (l_date y)) (gw_bookkeeping out)"
    by (simp_all add: build_reports_ledgers sorted_sort_values_by_date)
  from a b show ?thesis
    by (auto simp: sorted_wrt_iff_nth_less)
qed

theorem ledgers_sorted_by_date_witness:
  "process_csv (\<lambda>n u. good_run) mixed_orders = Inr mixed_reports
   \<and> map l_date (bookkeeping_data mixed_tables) = [Val day_5, Val day_5, Val day_3, Val day_3]
   \<and> map l_date (gw_bookkeeping mixed_reports) = [Val day_3, Val day_5]
   \<and> sorted_wrt (\<lambda>x y. date_le (l_date x) (l_date y)) (gw_bookkeeping mixed_reports)
   \<and> date_le (l_date (gw_bookkeeping mixed_reports ! 0)) (l_date (gw_bookkeeping mixed_reports ! 1))"
  using ledgers_sorted_by_date [OF csv_mixed_orders] csv_mixed_orders
  by (simp add: mixed_reports_def mixed_tables_def entry_of_def)

section \<open>The link is the third element of every product row\<close>

text \<open>
  After the loop, every row of \<open>products\<close> has one of the two shapes of lines 84 and 86, the
  enriched one exactly for links with the marker \<open>corvusbelli.com\<close>, and its element at
  index 2 is the link of the ledger entry appended with it. The filters of lines 110 and 111
  therefore never raise and keep exactly the rows whose index-2 element contains the marker.
\<close>

lemma product_rows_carry_link:
  assumes "process_rows w empty_tables data = Inr st"
  shows "list_all2 aligned (products st) (bookkeeping_data st)
     \<and> map index2 (products st) = map (\<lambda>e. Inr (S (l_link e))) (bookkeeping_data st)
     \<and> select_rows marker (products st) = Inr (filter (passes marker) (products st))"
proof -
  have al: "list_all2 aligned (products st) (bookkeeping_data st)"
    using process_rows_aligned [OF assms] by (simp add: empty_tables_def)
  then have "map index2 (products st) = map (\<lambda>e. Inr (S (l_link e))) (bookkeeping_data st)"
    by (induction rule: list_all2_induct) (auto simp: aligned_index2)
  with al show ?thesis
    by (auto simp: select_rows_aligned)
qed

lemma run_both_order:
  "process_rows (\<lambda>n u. good_run) empty_tables both_order =
     Inr \<lparr>products = [[S (asc ''REF123''), S figure_a, S both_link, S (asc ''45''), I 1]],
          bookkeeping_data = [entry_of day_3 both_link 1],
          incorrect_entries = [], fetches = 1\<rparr>"
  by (simp add: both_order_def entry_of_def process_row_render figure_a_facts both_link_facts
      process_item_def render_candidate try_block_def parse_figure_a fetch_good_run falsy_def
      empty_tables_def order_of_def format_phone_number_def
      asc_def [of "''REF123''"] asc_def [of "''45''"])

text \<open>
  C10. An item of the reference-priced vendor whose link also contains \<open>warhammer\<close> is
  enriched and appended as a row of five fields with the link at index 2. The row passes
  both filters, and the frame of three columns cannot hold it: line 111 raises
  \<open>ValueError\<close>, so the row lands in no table, and no table is written at all.
\<close>

theorem both_markers_row_lands_nowhere:
  "index2 [S (asc ''REF123''), S figure_a, S both_link, S (asc ''45''), I 1] = Inr (S both_link)
   \<and> passes (asc ''corvusbelli.com'') [S (asc ''REF123''), S figure_a, S both_link, S (asc ''45''), I 1]
   \<and> passes (asc ''warhammer'') [S (asc ''REF123''), S figure_a, S both_link, S (asc ''45''), I 1]
   \<and> process_rows (\<lambda>n u. good_run) empty_tables both_order =
       Inr \<lparr>products = [[S (asc ''REF123''), S figure_a, S both_link, S (asc ''45''), I 1]],
            bookkeeping_data = [entry_of day_3 both_link 1],
            incorrect_entries = [], fetches = 1\<rparr>
   \<and> process_csv (\<lambda>n u. good_run) both_order =
       Inl (ValueError ''columns passed, passed data had a different number of columns'')"
proof -
  have i: "index2 [S (asc ''REF123''), S figure_a, S both_link, S (asc ''45''), I 1] = Inr (S both_link)"
    by (simp add: index2_def)
  have p: "passes (asc ''corvusbelli.com'') [S (asc ''REF123''), S figure_a, S both_link, S (asc ''45''), I 1]"
    "passes (asc ''warhammer'') [S (asc ''REF123''), S figure_a, S both_link, S (asc ''45''), I 1]"
    by (simp_all add: passes_def index2_def marker_in_def bindE_def both_link_facts)
  have "build_reports \<lparr>products = [[S (asc ''REF123''), S figure_a, S both_link, S (asc ''45''), I 1]],
          bookkeeping_data = [entry_of day_3 both_link 1],
          incorrect_entries = [], fetches = 1\<rparr>
      = Inl (ValueError ''columns passed, passed data had a different number of columns'')"
    by (simp add: build_reports_def bindE_def index2_def marker_in_def data_frame_def
        both_link_facts)
  with run_both_order have "process_csv (\<lambda>n u. good_run) both_order =
       Inl (ValueError ''columns passed, passed data had a different number of columns'')"
    by (simp add: process_csv_def bindE_def)
  with i p run_both_order show ?thesis by blast
qed

section \<open>What the page fetcher returns\<close>

text \<open>
  C2, as the claim states it, fails: when the reference marker is absent after the bounded
  wait, \<open>wait_for_selector\<close> raises, and the call returns \<open>(None, None)\<close>, not the
  sentinel string.
\<close>

theorem fetch_timeout_counterexample:
  "\<not> wait_reference_returns timeout_run
   \<and> fst (fetch_product_details timeout_run) = (None, None)
   \<and> fst (fst (fetch_product_details timeout_run)) \<noteq> Some reference_not_found"
  by (simp add: fetch_product_details_def with_body_def timeout_run_def good_run_def)

text \<open>
  C2, amended. The call returns a pair. If any step raises an exception that
  \<open>except Exception\<close> catches, a wait that times out because its marker is absent
  included, the pair is \<open>(None, None)\<close>. If none raises, the pair holds the two fields
  read, where a field is the sentinel string when the \<open>query_selector\<close> of its test
  finds no element, and the trimmed text of the element when the test and the read both
  find one; a read that finds none, or fails, is a raise.
\<close>

theorem fetch_product_details_result:
  "(\<not> playwright_starts r \<or> \<not> launch_returns r \<or> \<not> new_page_returns r \<or> \<not> goto_returns r
      \<or> \<not> wait_reference_returns r \<or> \<not> wait_price_returns r \<or> \<not> close_returns r
      \<or> read_field (reference_test r) (reference_read r) reference_not_found = Raises
      \<or> read_field (price_test r) (price_read r) price_not_found = Raises
    \<longrightarrow> fst (fetch_product_details r) = (None, None))
   \<and> (playwright_starts r \<and> launch_returns r \<and> new_page_returns r \<and> goto_returns r
      \<and> wait_reference_returns r \<and> wait_price_returns r \<and> close_returns r
      \<and> read_field (reference_test r) (reference_read r) reference_not_found = Returns a
      \<and> read_field (price_test r) (price_read r) price_not_found = Returns b
    \<longrightarrow> fst (fetch_product_details r) = (Some a, Some b))
   \<and> read_field (Returns None) read sentinel = Returns sentinel
   \<and> read_field (Returns (Some el)) (Returns (Some (Returns t))) sentinel = Returns (strip t)
   \<and> read_field Raises read sentinel = Raises
   \<and> read_field (Returns (Some el)) Raises sentinel = Raises
   \<and> read_field (Returns (Some el)) (Returns None) sentinel = Raises
   \<and> read_field (Returns (Some el)) (Returns (Some Raises)) sentinel = Raises"
  by (auto simp: fetch_product_details_def with_body_def read_field_def
      split: outcome.splits prod.splits)

theorem fetch_product_details_result_witness:
  "fst (fetch_product_details timeout_run) = (None, None)
   \<and> fst (fetch_product_details vanishing_run) = (None, None)
   \<and> fst (fetch_product_details sentinel_run) = (Some reference_not_found, Some (asc ''45''))
   \<and> fst (fetch_product_details padded_run) = (Some (asc ''REF123''), Some (asc ''45''))"
proof -
  have stripped: "strip (asc ''  REF123 '') = asc ''REF123''" "strip (asc ''45'') = asc ''45''"
    by (simp_all add: strip_def isspace_def asc_def)
  from fetch_product_details_result [where r = timeout_run]
  have 1: "fst (fetch_product_details timeout_run) = (None, None)"
    by (simp add: timeout_run_def good_run_def)
  from fetch_product_details_result [where r = vanishing_run]
  have 2: "fst (fetch_product_details vanishing_run) = (None, None)"
    by (simp add: vanishing_run_def good_run_def read_field_def)
  from fetch_product_details_result
    [where r = sentinel_run and a = reference_not_found and b = "asc ''45''"]
  have 3: "fst (fetch_product_details sentinel_run)
      = (Some reference_not_found, Some (asc ''45''))"
    by (simp add: sentinel_run_def good_run_def read_field_def stripped)
  from fetch_product_details_result
    [where r = padded_run and a = "asc ''REF123''" and b = "asc ''45''"]
  have 4: "fst (fetch_product_details padded_run) = (Some (asc ''REF123''), Some (asc ''45''))"
    by (simp add: padded_run_def good_run_def read_field_def stripped)
  from 1 2 3 4 show ?thesis by blast
qed

section \<open>The link-format validation\<close>

text \<open>
  C9. For an item that parses, the link-format check of lines 71 to 73 raises its error if
  and only if the link does not begin with the four characters \<open>http\<close>: nothing after
  them is looked at, so \<open>httpgarbage\<close> passes.
\<close>

theorem link_validation_is_http_prefix:
  "parse_product_item item = Inr (name, link, q) \<Longrightarrow>
   (fst (try_block w n item) = Inl (ValueError ''Link does not start with http''))
     = (\<not> prefix (asc ''http'') link)"
  by (auto simp: try_block_def startswith_def split: prod.splits)

theorem link_validation_is_http_prefix_witness:
  "parse_product_item (render_item figure_a garbage_link 1) = Inr (figure_a, garbage_link, 1)
   \<and> prefix (asc ''http'') garbage_link
   \<and> fst (try_block (\<lambda>n u. good_run) 0 (render_item figure_a garbage_link 1))
       = Inr ([S figure_a, I 1, S garbage_link], figure_a, garbage_link, 1)
   \<and> parse_product_item (render_item figure_a www_link 1) = Inr (figure_a, www_link, 1)
   \<and> \<not> prefix (asc ''http'') www_link
   \<and> fst (try_block (\<lambda>n u. good_run) 0 (render_item figure_a www_link 1))
       = Inl (ValueError ''Link does not start with http'')"
proof -
  have g: "prefix (asc ''http'') garbage_link" and w: "\<not> prefix (asc ''http'') www_link"
    using garbage_link_facts www_link_facts by (simp_all add: startswith_def)
  have accepted: "fst (try_block (\<lambda>n u. good_run) 0 (render_item figure_a garbage_link 1))
       = Inr ([S figure_a, I 1, S garbage_link], figure_a, garbage_link, 1)"
    by (simp add: try_block_def parse_other_links garbage_link_facts figure_a_facts)
  from link_validation_is_http_prefix [where w = "\<lambda>n u. good_run" and n = 0,
      OF parse_other_links(2) [of 1, OF small_quantities(1)]] w
  have rejected: "fst (try_block (\<lambda>n u. good_run) 0 (render_item figure_a www_link 1))
       = Inl (ValueError ''Link does not start with http'')"
    by blast
  from link_validation_is_http_prefix [where w = "\<lambda>n u. good_run" and n = 0,
      OF parse_other_links(1) [of 1, OF small_quantities(1)]]
    g w accepted rejected parse_other_links [of 1, OF small_quantities(1)]
  show ?thesis by blast
qed

section \<open>A record that aborts the run\<close>

text \<open>
  C3. The \<open>try\<close> of line 65 contains what one Item Description can raise, but the split
  of the blob at line 62 stands outside it. On a table of three orders whose second has an
  empty item blob (\<open>NaN\<close>), the \<open>AttributeError\<close> leaves \<open>process_csv\<close>: the third
  order is not processed and no report is produced.
\<close>

theorem empty_blob_aborts_run:
  "process_csv (\<lambda>n u. good_run) empty_blob_orders = Inl AttributeError"
  by (simp add: process_csv_def bindE_def empty_blob_orders_def order_of_def process_row_def)

section \<open>A sentinel reference in the supplier table\<close>

text \<open>
  C1. On one order for the reference-priced vendor, with a fetch that returns the sentinel
  \<open>Reference not found\<close> for the reference number, the test of line 81 lets the item
  through (a non-empty string is truthy): the supplier table and the ledger hold the item,
  with the sentinel as its reference number, and nothing is rejected.
\<close>

theorem sentinel_reference_is_included:
  "fst (fetch_product_details sentinel_run) = (Some reference_not_found, Some (asc ''45''))
   \<and> process_csv (\<lambda>n u. sentinel_run) sentinel_order =
       Inr \<lparr>corvus_belli =
              [[S reference_not_found, S figure_a, S corvus_link, S (asc ''45''), I 2]],
            games_workshop = [],
            infinity_bookkeeping = [entry_of day_3 corvus_link 2],
            gw_bookkeeping = [],
            incorrect_report = None\<rparr>"
proof -
  have rows: "process_rows (\<lambda>n u. sentinel_run) empty_tables sentinel_order =
      Inr \<lparr>products = [[S reference_not_found, S figure_a, S corvus_link, S (asc ''45''), I 2]],
           bookkeeping_data = [entry_of day_3 corvus_link 2],
           incorrect_entries = [], fetches = 1\<rparr>"
    by (simp add: sentinel_order_def entry_of_def process_row_render figure_a_facts
        corvus_link_facts process_item_def render_candidate try_block_def parse_figure_a
        fetch_sentinel_run falsy_def empty_tables_def order_of_def format_phone_number_def
        reference_not_found_def asc_def [of "''Reference not found''"] asc_def [of "''45''"])
  have "build_reports \<lparr>products = [[S reference_not_found, S figure_a, S corvus_link, S (asc ''45''), I 2]],
           bookkeeping_data = [entry_of day_3 corvus_link 2],
           incorrect_entries = [], fetches = 1\<rparr> =
       Inr \<lparr>corvus_belli =
              [[S reference_not_found, S figure_a, S corvus_link, S (asc ''45''), I 2]],
            games_workshop = [],
            infinity_bookkeeping = [entry_of day_3 corvus_link 2],
            gw_bookkeeping = [],
            incorrect_report = None\<rparr>"
    by (simp add: build_reports_def bindE_def index2_def marker_in_def data_frame_def
        link_contains_def sort_values_by_date_def entry_of_def corvus_link_facts)
  with rows fetch_sentinel_run show ?thesis
    by (simp add: process_csv_def bindE_def)
qed

section \<open>Items that are rejected\<close>

text \<open>
  C6. A candidate Item Description whose quantity text is not a number (\<open>int\<close> raises),
  or that parses with a quantity of zero or less, or that parses with a link that does not
  start with \<open>http\<close>, changes the accumulators in one way only: one row, with the item's
  raw text unmodified, is appended to \<open>incorrect_entries\<close>; \<open>products\<close> and
  \<open>bookkeeping_data\<close>, from which every supplier and ledger table is built, stay as they
  were.
\<close>

theorem bad_quantity_or_link_is_rejected:
  assumes "py_in name_label item"
    and "(\<exists>t e. index1 (py_split item quantity_prefix) = Inr t \<and> py_int (strip t) = Inl e)
       \<or> (\<exists>name link q. parse_product_item item = Inr (name, link, q)
             \<and> (q \<le> 0 \<or> \<not> startswith link (asc ''http'')))"
  shows "products (process_item w row st item) = products st
     \<and> bookkeeping_data (process_item w row st item) = bookkeeping_data st
     \<and> incorrect_entries (process_item w row st item) =
         incorrect_entries st @
           [\<lparr>r_customer = customer row, r_phone = format_phone_number (phone row),
             r_date = submission_date row, r_invalid_entry = item\<rparr>]"
proof -
  from assms(2) have "(\<exists>e. parse_product_item item = Inl e)
     \<or> (\<exists>name link q. parse_product_item item = Inr (name, link, q)
           \<and> (q \<le> 0 \<or> \<not> startswith link (asc ''http'')))"
    using parse_fails_on_quantity by blast
  then obtain e where "try_block w (fetches st) item = (Inl e, fetches st)"
    using try_block_rejects by blast
  from process_item_rejects [OF assms(1) this, of row] show ?thesis
    by simp
qed

theorem bad_quantity_or_link_is_rejected_witness:
  "py_in name_label minus_one_item
   \<and> parse_product_item minus_one_item = Inr (figure_a, warhammer_link, - 1)
   \<and> incorrect_entries (process_item (\<lambda>n u. good_run) (order_of day_3 (Val minus_one_item))
         empty_tables minus_one_item)
       = [\<lparr>r_customer = asc ''Lin'', r_phone = 39 # asc ''0912345678'', r_date = Val day_3,
           r_invalid_entry = minus_one_item\<rparr>]
   \<and> products (process_item (\<lambda>n u. good_run) (order_of day_3 (Val minus_one_item))
         empty_tables minus_one_item) = []
   \<and> bookkeeping_data (process_item (\<lambda>n u. good_run) (order_of day_3 (Val minus_one_item))
         empty_tables minus_one_item) = []
   \<and> py_in name_label two_item
   \<and> index1 (py_split two_item quantity_prefix) = Inr (asc ''two'')
   \<and> py_int (strip (asc ''two'')) = Inl invalid_literal
   \<and> incorrect_entries (process_item (\<lambda>n u. good_run) (order_of day_3 (Val two_item))
         empty_tables two_item)
       = [\<lparr>r_customer = asc ''Lin'', r_phone = 39 # asc ''0912345678'', r_date = Val day_3,
           r_invalid_entry = two_item\<rparr>]
   \<and> parse_product_item (render_item figure_a www_link 1) = Inr (figure_a, www_link, 1)
   \<and> incorrect_entries (process_item (\<lambda>n u. good_run)
         (order_of day_3 (Val (render_item figure_a www_link 1)))
         empty_tables (render_item figure_a www_link 1))
       = [\<lparr>r_customer = asc ''Lin'', r_phone = 39 # asc ''0912345678'', r_date = Val day_3,
           r_invalid_entry = render_item figure_a www_link 1\<rparr>]"
proof -
  have c1: "py_in name_label minus_one_item"
    by (simp add: minus_one_item_def render_candidate)
  have p1: "parse_product_item minus_one_item = Inr (figure_a, warhammer_link, - 1)"
    by (simp add: minus_one_item_def parse_figure_a)
  have p3: "parse_product_item (render_item figure_a www_link 1) = Inr (figure_a, www_link, 1)"
    by (rule parse_other_links) simp
  note t1 = bad_quantity_or_link_is_rejected [where w = "\<lambda>n u. good_run" and st = empty_tables
      and row = "order_of day_3 (Val minus_one_item)", OF c1]
  note t2 = bad_quantity_or_link_is_rejected [where w = "\<lambda>n u. good_run" and st = empty_tables
      and row = "order_of day_3 (Val two_item)", OF two_item_candidate]
  note t3 = bad_quantity_or_link_is_rejected [where w = "\<lambda>n u. good_run" and st = empty_tables
      and row = "order_of day_3 (Val (render_item figure_a www_link 1))", OF render_candidate]
  have r1: "incorrect_entries (process_item (\<lambda>n u. good_run) (order_of day_3 (Val minus_one_item))
         empty_tables minus_one_item)
       = [\<lparr>r_customer = asc ''Lin'', r_phone = 39 # asc ''0912345678'', r_date = Val day_3,
           r_invalid_entry = minus_one_item\<rparr>]
     \<and> products (process_item (\<lambda>n u. good_run) (order_of day_3 (Val minus_one_item))
         empty_tables minus_one_item) = []
     \<and> bookkeeping_data (process_item (\<lambda>n u. good_run) (order_of day_3 (Val minus_one_item))
         empty_tables minus_one_item) = []"
    using t1 p1 by (simp add: empty_tables_def order_of_def format_phone_number_def)
  have r2: "incorrect_entries (process_item (\<lambda>n u. good_run) (order_of day_3 (Val two_item))
         empty_tables two_item)
       = [\<lparr>r_customer = asc ''Lin'', r_phone = 39 # asc ''0912345678'', r_date = Val day_3,
           r_invalid_entry = two_item\<rparr>]"
    using t2 two_item_quantity by (simp add: empty_tables_def order_of_def format_phone_number_def)
  have r3: "incorrect_entries (process_item (\<lambda>n u. good_run)
         (order_of day_3 (Val (render_item figure_a www_link 1)))
         empty_tables (render_item figure_a www_link 1))
       = [\<lparr>r_customer = asc ''Lin'', r_phone = 39 # asc ''0912345678'', r_date = Val day_3,
           r_invalid_entry = render_item figure_a www_link 1\<rparr>]"
    using t3 p3 www_link_facts by (simp add: empty_tables_def order_of_def format_phone_number_def)
  from c1 p1 r1 two_item_candidate two_item_quantity r2 p3 r3 show ?thesis
    by blast
qed

section \<open>Parsing what was rendered\<close>

text \<open>
  C5, as the claim states it, fails for some triples: a name with a leading blank comes
  back without it, and a name that contains the text \<open>, Product Link\<close> comes back cut
  off before it.
\<close>

theorem round_trip_counterexample:
  "parse_product_item (render_item padded_name warhammer_link 2) = Inr (figure_a, warhammer_link, 2)
   \<and> padded_name \<noteq> figure_a
   \<and> parse_product_item (render_item delimiter_name warhammer_link 2)
       = Inr (asc ''A'', warhammer_link, 2)
   \<and> delimiter_name \<noteq> asc ''A''"
  using parse_padded_name parse_delimiter_name padded_name_facts(2)
  by (simp add: delimiter_name_def asc_def)

text \<open>
  C5, amended. For every name and link that carry no leading or trailing whitespace, where
  the name contains none of the three field labels and not the text \<open>, Product Link\<close>, and
  the link contains neither the link label, nor the quantity label, nor the text
  \<open>, Product Quantity\<close>, and for every integer quantity of at most 4300 decimal digits (more
  are refused by \<open>int\<close>), parsing the rendered Item Description gives the name, link and
  quantity back.
\<close>

theorem parse_round_trip:
  assumes "strip name = name" and "strip link = link"
    and "\<not> py_in name_prefix name" and "\<not> py_in link_prefix name"
    and "\<not> py_in quantity_prefix name" and "\<not> py_in link_delim name"
    and "\<not> py_in link_prefix link"
    and "\<not> py_in quantity_prefix link" and "\<not> py_in quantity_delim link"
    and "decimal_digits quantity \<le> 4300"
  shows "parse_product_item (render_item name link quantity) = Inr (name, link, quantity)"
  using assms by (intro parse_render_item)

theorem parse_round_trip_witness:
  "strip figure_a = figure_a \<and> strip warhammer_link = warhammer_link
   \<and> \<not> py_in name_prefix figure_a \<and> \<not> py_in link_delim figure_a
   \<and> \<not> py_in quantity_delim warhammer_link
   \<and> decimal_digits 2 = 1 \<and> decimal_digits (- 7) = 1
   \<and> parse_product_item (render_item figure_a warhammer_link 2) = Inr (figure_a, warhammer_link, 2)
   \<and> parse_product_item (render_item figure_a corvus_link (- 7)) = Inr (figure_a, corvus_link, - 7)
   \<and> py_in name_prefix label_link
   \<and> parse_product_item (render_item figure_a label_link 2) = Inr (figure_a, label_link, 2)"
proof -
  have d: "decimal_digits 2 = 1" "decimal_digits (- 7) = 1"
    by (simp_all add: decimal_digits_def digits.simps)
  have 1: "parse_product_item (render_item figure_a warhammer_link 2) = Inr (figure_a, warhammer_link, 2)"
    by (rule parse_round_trip) (simp_all add: figure_a_facts warhammer_link_facts d)
  have 2: "parse_product_item (render_item figure_a corvus_link (- 7)) = Inr (figure_a, corvus_link, - 7)"
    by (rule parse_round_trip) (simp_all add: figure_a_facts corvus_link_facts d)
  have 3: "parse_product_item (render_item figure_a label_link 2) = Inr (figure_a, label_link, 2)"
    by (rule parse_round_trip) (simp_all add: figure_a_facts label_link_facts d)
  from 1 2 3 d figure_a_facts warhammer_link_facts label_link_facts show ?thesis by blast
qed

section \<open>Where the candidate items go\<close>

text \<open>
  C4, as the claim states it, fails: an order whose only item links to neither vendor is
  accepted (it parses, and nothing rejects it), yet the run writes it to none of its five
  tables.
\<close>

theorem accepted_item_in_no_table:
  "candidate_items lost_order = [render_item figure_a other_link 4]
   \<and> parse_product_item (render_item figure_a other_link 4) = Inr (figure_a, other_link, 4)
   \<and> process_csv (\<lambda>n u. good_run) lost_order =
       Inr \<lparr>corvus_belli = [], games_workshop = [], infinity_bookkeeping = [],
            gw_bookkeeping = [], incorrect_report = None\<rparr>"
proof -
  have c: "candidate_items lost_order = [render_item figure_a other_link 4]"
    by (simp add: candidate_items_def lost_order_def order_of_def render_single_line
        render_candidate figure_a_facts other_link_facts)
  have "build_reports \<lparr>products = [[S figure_a, I 4, S other_link]],
          bookkeeping_data = [entry_of day_3 other_link 4],
          incorrect_entries = [], fetches = 0\<rparr>
      = Inr \<lparr>corvus_belli = [], games_workshop = [], infinity_bookkeeping = [],
            gw_bookkeeping = [], incorrect_report = None\<rparr>"
    by (simp add: build_reports_def bindE_def index2_def marker_in_def data_frame_def
        link_contains_def sort_values_by_date_def entry_of_def other_link_facts)
  with run_lost_order have "process_csv (\<lambda>n u. good_run) lost_order =
       Inr \<lparr>corvus_belli = [], games_workshop = [], infinity_bookkeeping = [],
            gw_bookkeeping = [], incorrect_report = None\<rparr>"
    by (simp add: process_csv_def bindE_def)
  with c parse_figure_a(3) [of 4, OF small_quantities(2)] show ?thesis by blast
qed

text \<open>
  C4, amended. Between the accumulators the partition is exhaustive and disjoint: every
  candidate Item Description is either rejected, and then its raw text is one row of the
  rejected entries, or accepted, and then its name, link and quantity are one ledger entry
  with one product row beside it; never both and never neither. Of the accepted items the
  reports hold only those of the two vendors: ledger A exactly the entries whose link
  contains \<open>corvusbelli\<close>, ledger B exactly those with \<open>warhammer\<close>, supplier table A
  exactly the rows with \<open>corvusbelli.com\<close>, supplier table B exactly those with
  \<open>warhammer\<close>, and the rejected-entries report all rejected rows.
\<close>

theorem candidates_partitioned:
  assumes "process_rows w empty_tables data = Inr st" and "build_reports st = Inr out"
  shows "partitioned st (candidate_items data)
     \<and> list_all2 aligned (products st) (bookkeeping_data st)
     \<and> incorrect_report out
         = (if incorrect_entries st = [] then None else Some (incorrect_entries st))
     \<and> mset (infinity_bookkeeping out)
         = mset (link_contains (asc ''corvusbelli'') (bookkeeping_data st))
     \<and> mset (gw_bookkeeping out)
         = mset (link_contains (asc ''warhammer'') (bookkeeping_data st))
     \<and> corvus_belli out = filter (passes (asc ''corvusbelli.com'')) (products st)
     \<and> games_workshop out = filter (passes (asc ''warhammer'')) (products st)"
proof -
  have al: "list_all2 aligned (products st) (bookkeeping_data st)"
    using process_rows_aligned [OF assms(1)] by (simp add: empty_tables_def)
  from partitioned_run [OF assms(1)] al build_reports_suppliers [OF al assms(2)]
    build_reports_ledgers [OF assms(2)]
  show ?thesis by (simp add: mset_sort_values_by_date)
qed

theorem candidates_partitioned_witness:
  "length (candidate_items mixed_orders) = 4
   \<and> partitioned mixed_tables (candidate_items mixed_orders)
   \<and> length (bookkeeping_data mixed_tables) = 4
   \<and> incorrect_entries mixed_tables = []
   \<and> mset (infinity_bookkeeping mixed_reports) = {#entry_of day_5 corvus_link 1#}
   \<and> mset (gw_bookkeeping mixed_reports)
       = {#entry_of day_5 warhammer_link 2, entry_of day_3 warhammer_link 3#}
   \<and> link_contains (asc ''corvusbelli'') (bookkeeping_data mixed_tables)
       = [entry_of day_5 corvus_link 1]
   \<and> link_contains (asc ''warhammer'') (bookkeeping_data mixed_tables)
       = [entry_of day_5 warhammer_link 2, entry_of day_3 warhammer_link 3]
   \<and> incorrect_report mixed_reports = None"
proof -
  note t = candidates_partitioned [OF run_mixed_orders reports_mixed_orders]
  have c: "length (candidate_items mixed_orders) = 4"
    by (simp add: candidate_items_def mixed_orders_def order_of_def render_single_line
        render_candidate figure_a_facts other_link_facts warhammer_link_facts corvus_link_facts)
  have l: "link_contains (asc ''corvusbelli'') (bookkeeping_data mixed_tables)
       = [entry_of day_5 corvus_link 1]"
    "link_contains (asc ''warhammer'') (bookkeeping_data mixed_tables)
       = [entry_of day_5 warhammer_link 2, entry_of day_3 warhammer_link 3]"
    "length (bookkeeping_data mixed_tables) = 4" "incorrect_entries mixed_tables = []"
    by (simp_all add: link_contains_def mixed_tables_def entry_of_def other_link_facts
        warhammer_link_facts corvus_link_facts)
  from t l have m: "mset (infinity_bookkeeping mixed_reports) = {#entry_of day_5 corvus_link 1#}"
    "mset (gw_bookkeeping mixed_reports)
       = {#entry_of day_5 warhammer_link 2, entry_of day_3 warhammer_link 3#}"
    "incorrect_report mixed_reports = None"
    by simp_all
  from t c l m show ?thesis by blast
qed

end
